theory Spec2Isabelle
  imports Complex_Main "HOL-Library.AList"
begin

section \<open>Bytes and text\<close>

text \<open>
  A Python \<open>bytes\<close> value is a list of \<open>char\<close> (one \<open>char\<close> is one byte). A Python
  \<open>str\<close> is held as the UTF-8 bytes of its code points, so it is a \<open>string\<close> too; every
  literal of the source is ASCII and stands for itself.
\<close>

type_synonym bytes = string

definition byte :: "char \<Rightarrow> nat" where
  "byte c = of_char c"

definition newline :: char where
  "newline = CHR 0x0A"

text \<open>\<open>bytes.split(sep)\<close> for a one-byte separator: never empty, the last piece is what
  follows the last separator.\<close>

fun split_bytes :: "char \<Rightarrow> bytes \<Rightarrow> bytes list" where
  "split_bytes sep [] = [[]]"
| "split_bytes sep (c # cs) =
     (if c = sep then [] # split_bytes sep cs
      else (case split_bytes sep cs of
              [] \<Rightarrow> [[c]]
            | f # fs \<Rightarrow> (c # f) # fs))"

text \<open>\<open>bytes.strip()\<close> removes the six ASCII whitespace bytes at both ends.\<close>

definition bspace :: "char \<Rightarrow> bool" where
  "bspace c = ((9 \<le> byte c \<and> byte c \<le> 13) \<or> byte c = 32)"

definition bstrip :: "bytes \<Rightarrow> bytes" where
  "bstrip s = rev (dropWhile bspace (rev (dropWhile bspace s)))"

text \<open>
  \<open>bytes.decode('utf-8', errors='ignore')\<close>: well-formed sequences are kept, a byte that
  cannot start a sequence is dropped, a sequence broken by a wrong continuation byte
  loses the bytes before that byte, and a sequence cut off by the end of the input is
  dropped.
\<close>

definition cont :: "char \<Rightarrow> bool" where
  "cont c = (0x80 \<le> byte c \<and> byte c \<le> 0xBF)"

definition second_ok :: "nat \<Rightarrow> char \<Rightarrow> bool" where
  "second_ok b d =
     (if b = 0xE0 then 0xA0 \<le> byte d \<and> byte d \<le> 0xBF
      else if b = 0xED then 0x80 \<le> byte d \<and> byte d \<le> 0x9F
      else if b = 0xF0 then 0x90 \<le> byte d \<and> byte d \<le> 0xBF
      else if b = 0xF4 then 0x80 \<le> byte d \<and> byte d \<le> 0x8F
      else cont d)"

fun decode_ignore :: "bytes \<Rightarrow> string" where
  "decode_ignore [] = []"
| "decode_ignore (c # cs) =
     (let b = byte c in
      if b < 0x80 then c # decode_ignore cs
      else if 0xC2 \<le> b \<and> b \<le> 0xDF then
        (case cs of
           [] \<Rightarrow> []
         | d # ds \<Rightarrow> if cont d then c # d # decode_ignore ds else decode_ignore cs)
      else if 0xE0 \<le> b \<and> b \<le> 0xEF then
        (case cs of
           [] \<Rightarrow> []
         | d # ds \<Rightarrow>
             if second_ok b d then
               (case ds of
                  [] \<Rightarrow> []
                | e # es \<Rightarrow> if cont e then c # d # e # decode_ignore es else decode_ignore ds)
             else decode_ignore cs)
      else if 0xF0 \<le> b \<and> b \<le> 0xF4 then
        (case cs of
           [] \<Rightarrow> []
         | d # ds \<Rightarrow>
             if second_ok b d then
               (case ds of
                  [] \<Rightarrow> []
                | e # es \<Rightarrow>
                    if cont e then
                      (case es of
                         [] \<Rightarrow> []
                       | f # fs \<Rightarrow>
                           if cont f then c # d # e # f # decode_ignore fs else decode_ignore es)
                    else decode_ignore ds)
             else decode_ignore cs)
      else decode_ignore cs)"

text \<open>
  \<open>str.strip()\<close> removes the code points for which \<open>str.isspace\<close> holds: U+0009 to
  U+000D, U+001C to U+0020, U+0085, U+00A0, U+1680, U+2000 to U+200A, U+2028, U+2029,
  U+202F, U+205F and U+3000. \<open>space_len\<close> is the number of bytes such a code point takes
  at the head of a text (0 when there is none), \<open>space_suffix\<close> the same at its end.
\<close>

definition space_len :: "string \<Rightarrow> nat" where
  "space_len s =
     (case map byte s of
        [] \<Rightarrow> 0
      | a # r \<Rightarrow>
          if (9 \<le> a \<and> a \<le> 13) \<or> (28 \<le> a \<and> a \<le> 32) then 1
          else (case r of
                  [] \<Rightarrow> 0
                | b # r' \<Rightarrow>
                    if a = 0xC2 \<and> (b = 0x85 \<or> b = 0xA0) then 2
                    else (case r' of
                            [] \<Rightarrow> 0
                          | c # _ \<Rightarrow>
                              if a = 0xE1 \<and> b = 0x9A \<and> c = 0x80 then 3
                              else if a = 0xE2 \<and> b = 0x80 \<and>
                                      ((0x80 \<le> c \<and> c \<le> 0x8A) \<or> c = 0xA8 \<or> c = 0xA9 \<or> c = 0xAF)
                                   then 3
                              else if a = 0xE2 \<and> b = 0x81 \<and> c = 0x9F then 3
                              else if a = 0xE3 \<and> b = 0x80 \<and> c = 0x80 then 3
                              else 0)))"

definition space_suffix :: "string \<Rightarrow> nat" where
  "space_suffix s =
     (let n = length s in
      if 1 \<le> n \<and> space_len (drop (n - 1) s) = 1 then 1
      else if 2 \<le> n \<and> space_len (drop (n - 2) s) = 2 then 2
      else if 3 \<le> n \<and> space_len (drop (n - 3) s) = 3 then 3
      else 0)"

function lstrip :: "string \<Rightarrow> string" where
  "lstrip s = (if space_len s = 0 then s else lstrip (drop (space_len s) s))"
  by pat_completeness auto
termination
proof (relation "measure length")
  show "wf (measure length)" by simp
next
  fix s :: string
  assume "space_len s \<noteq> 0"
  then have "s \<noteq> []" by (auto simp: space_len_def)
  with \<open>space_len s \<noteq> 0\<close> show "(drop (space_len s) s, s) \<in> measure length" by simp
qed

function rstrip :: "string \<Rightarrow> string" where
  "rstrip s = (if space_suffix s = 0 then s else rstrip (take (length s - space_suffix s) s))"
  by pat_completeness auto
termination
proof (relation "measure length")
  show "wf (measure length)" by simp
next
  fix s :: string
  assume "space_suffix s \<noteq> 0"
  then have "s \<noteq> []" by (auto simp: space_suffix_def)
  with \<open>space_suffix s \<noteq> 0\<close>
  show "(take (length s - space_suffix s) s, s) \<in> measure length" by simp
qed

declare lstrip.simps [simp del] rstrip.simps [simp del] decode_ignore.simps(2) [simp del]

definition strip :: "string \<Rightarrow> string" where
  "strip s = rstrip (lstrip s)"

text \<open>\<open>needle in line\<close> and \<open>line.startswith(p)\<close>.\<close>

fun startswith :: "string \<Rightarrow> string \<Rightarrow> bool" where
  "startswith s [] = True"
| "startswith [] (p # ps) = False"
| "startswith (c # cs) (p # ps) = (c = p \<and> startswith cs ps)"

fun contains :: "string \<Rightarrow> string \<Rightarrow> bool" where
  "contains [] needle = (needle = [])"
| "contains (c # cs) needle = (startswith (c # cs) needle \<or> contains cs needle)"

section \<open>The process monitor (FfmpegMon.py)\<close>

text \<open>
  The monitor's fields. \<open>process\<close> is the handle of the child, named here by the command
  line it was launched with; \<open>progress_buffer\<close> is a Python dict, kept as an association
  list in insertion order.
\<close>

record FfmpegMon =
  process :: "string list option"
  partial_line :: bytes
  output_queue :: "string list"
  return_code :: "int option"
  temp_file :: "string option"
  progress_buffer :: "(string \<times> string) list"

definition FfmpegMon_init :: FfmpegMon where
  "FfmpegMon_init =
     \<lparr>process = None, partial_line = [], output_queue = [], return_code = None,
      temp_file = None, progress_buffer = []\<rparr>"

datatype error = RuntimeError | IndexError | AttributeError

text \<open>What \<open>subprocess.Popen\<close> and the two \<open>fcntl\<close> calls of \<open>start\<close> do.\<close>

datatype launch = Launched | PopenRaises | FcntlRaises

text \<open>
  \<open>start\<close> stores the temp file first, then refuses a second child. A failed launch is
  recorded as exit code 127; when only the switch to non-blocking mode fails the child
  is kept as well.
\<close>

definition start :: "launch \<Rightarrow> string list \<Rightarrow> string option \<Rightarrow> FfmpegMon
    \<Rightarrow> (error + unit) \<times> FfmpegMon" where
  "start outcome command_line tf m =
     (let m1 = m\<lparr>temp_file := tf\<rparr> in
      if process m1 \<noteq> None then (Inl RuntimeError, m1)
      else (case outcome of
              Launched \<Rightarrow> (Inr (), m1\<lparr>process := Some command_line\<rparr>)
            | PopenRaises \<Rightarrow> (Inr (), m1\<lparr>return_code := Some 127\<rparr>)
            | FcntlRaises \<Rightarrow>
                (Inr (), m1\<lparr>process := Some command_line, return_code := Some 127\<rparr>)))"

definition PROGRESS_KEYS :: "bytes list" where
  "PROGRESS_KEYS =
     [''frame'', ''fps'', ''stream_0_0_q'', ''bitrate'', ''total_size'',
      ''out_time_us'', ''out_time'', ''dup_frames'', ''drop_frames'',
      ''speed'', ''progress'', ''out_time_ms'']"

text \<open>\<open>b.get(key, default)\<close> on the accumulator.\<close>

definition dict_get :: "(string \<times> string) list \<Rightarrow> string \<Rightarrow> string \<Rightarrow> string" where
  "dict_get b k d = (case map_of b k of None \<Rightarrow> d | Some v \<Rightarrow> v)"

definition composite :: "(string \<times> string) list \<Rightarrow> string" where
  "composite b =
     ''frame='' @ dict_get b ''frame'' ''0'' @ '' '' @
     ''fps='' @ dict_get b ''fps'' ''0'' @ '' '' @
     ''bitrate='' @ dict_get b ''bitrate'' ''0'' @ '' '' @
     ''time='' @ dict_get b ''out_time'' ''00:00:00.00'' @ '' '' @
     ''speed='' @ dict_get b ''speed'' ''0'' @ ''x''"

text \<open>
  The body of the loop over the complete lines of one read. \<open>line.split(b'=', 1)\<close> gives
  the bytes before the first \<open>=\<close> and the bytes after it; a key of \<open>PROGRESS_KEYS\<close> is
  ASCII, so its strict decoding is the key itself.
\<close>

definition handle_line :: "bytes \<Rightarrow> FfmpegMon \<Rightarrow> FfmpegMon" where
  "handle_line line_bytes m =
     (if line_bytes = [] then m
      else if CHR ''='' \<in> set line_bytes \<and>
              bstrip (takeWhile (\<lambda>c. c \<noteq> CHR ''='') line_bytes) \<in> set PROGRESS_KEYS then
        (let key_str = bstrip (takeWhile (\<lambda>c. c \<noteq> CHR ''='') line_bytes);
             val_str = decode_ignore (bstrip (tl (dropWhile (\<lambda>c. c \<noteq> CHR ''='') line_bytes)));
             m1 = m\<lparr>progress_buffer := AList.update key_str val_str (progress_buffer m)\<rparr>
         in if key_str = ''progress'' then
              m1\<lparr>output_queue := output_queue m1 @ [''PROGRESS:'' @ composite (progress_buffer m1)],
                 progress_buffer := []\<rparr>
            else m1)
      else m\<lparr>output_queue := output_queue m @ [strip (decode_ignore line_bytes)]\<rparr>)"

text \<open>What \<open>poll\<close> does with a non-empty chunk: lines 48 to 89.\<close>

definition feed :: "bytes \<Rightarrow> FfmpegMon \<Rightarrow> FfmpegMon" where
  "feed chunk m =
     (let data = partial_line m @ chunk;
          fragments = split_bytes newline data
      in fold handle_line (butlast fragments) (m\<lparr>partial_line := last fragments\<rparr>))"

text \<open>What \<open>poll\<close> does with the carry-over once the child has exited: lines 94 to 97.\<close>

definition flush :: "FfmpegMon \<Rightarrow> FfmpegMon" where
  "flush m =
     (if partial_line m \<noteq> [] then
        (let l_str = strip (decode_ignore (partial_line m));
             m1 = (if l_str \<noteq> [] then m\<lparr>output_queue := output_queue m @ [l_str]\<rparr> else m)
         in m1\<lparr>partial_line := []\<rparr>)
      else m)"

text \<open>
  \<open>poll\<close> returns \<open>None\<close>, a \<open>str\<close> or an \<open>int\<close>. Its two looks at the child are
  arguments: \<open>rd\<close> is what \<open>self.process.stderr.read()\<close> gives (\<open>None\<close> when the read
  would block or raises), \<open>status\<close> is what \<open>self.process.poll()\<close> gives (\<open>None\<close> while
  the child runs). A call that returns before it reaches them does not use them.
  \<open>after_read\<close> is the \<open>if chunk:\<close> block.
\<close>

datatype polled = NoEvent | Line string | ExitCode int

definition polled_of_code :: "int option \<Rightarrow> polled" where
  "polled_of_code rc = (case rc of None \<Rightarrow> NoEvent | Some c \<Rightarrow> ExitCode c)"

definition after_read :: "bytes option \<Rightarrow> FfmpegMon \<Rightarrow> FfmpegMon" where
  "after_read rd m =
     (case rd of
        None \<Rightarrow> m
      | Some chunk \<Rightarrow> if chunk \<noteq> [] then feed chunk m else m)"

definition poll :: "bytes option \<Rightarrow> int option \<Rightarrow> FfmpegMon \<Rightarrow> polled \<times> FfmpegMon" where
  "poll rd status m =
     (case output_queue m of
        q # qs \<Rightarrow> (Line q, m\<lparr>output_queue := qs\<rparr>)
      | [] \<Rightarrow>
         (case process m of
            None \<Rightarrow> (polled_of_code (return_code m), m)
          | Some p \<Rightarrow>
             (let m1 = after_read rd m
              in (case status of
                    None \<Rightarrow> (NoEvent, m1)
                  | Some process_status \<Rightarrow>
                     (let m2 = flush m1 in
                      (case output_queue m2 of
                         q # qs \<Rightarrow>
                           (Line q, m2\<lparr>return_code := Some process_status, output_queue := qs\<rparr>)
                       | [] \<Rightarrow>
                           (ExitCode process_status,
                            m2\<lparr>process := None, return_code := Some process_status\<rparr>)))))))"

text \<open>
  \<open>stop\<close>. \<open>alive\<close> says that \<open>self.process.poll()\<close> is \<open>None\<close>, \<open>graceful\<close> that
  \<open>terminate\<close> and the wait of 15 seconds went through, \<open>exists\<close> is \<open>os.path.exists\<close>.
  What it does to the outside is returned as a list; a failing \<open>os.unlink\<close> is
  swallowed, so only the attempt is recorded.
\<close>

datatype effect = Terminate | Kill | Unlink string

definition stop :: "bool \<Rightarrow> bool \<Rightarrow> (string \<Rightarrow> bool) \<Rightarrow> int \<Rightarrow> FfmpegMon
    \<Rightarrow> effect list \<times> FfmpegMon" where
  "stop alive graceful exists rc m =
     (let signals = (if process m \<noteq> None \<and> alive
                     then (if graceful then [Terminate] else [Terminate, Kill])
                     else []);
          removal = (case temp_file m of
                       None \<Rightarrow> []
                     | Some f \<Rightarrow> if f \<noteq> [] \<and> exists f then [Unlink f] else [])
      in (signals @ removal,
          m\<lparr>temp_file := None, process := None, partial_line := [],
            progress_buffer := [], return_code := Some rc\<rparr>))"

text \<open>A run of \<open>poll\<close> calls, one pair of observations of the child for each call.\<close>

fun polls :: "(bytes option \<times> int option) list \<Rightarrow> FfmpegMon \<Rightarrow> polled list \<times> FfmpegMon" where
  "polls [] m = ([], m)"
| "polls (ob # obs) m =
     (let (r, m1) = poll (fst ob) (snd ob) m;
          (rs, m2) = polls obs m1
      in (r # rs, m2))"

text \<open>The monitor after \<open>start\<close> on a fresh object and a run of \<open>poll\<close> calls.\<close>

definition monitored :: "launch \<Rightarrow> string list \<Rightarrow> string option
    \<Rightarrow> (bytes option \<times> int option) list \<Rightarrow> FfmpegMon" where
  "monitored outcome cmd tf obs = snd (polls obs (snd (start outcome cmd tf FfmpegMon_init)))"

lemmas text_defs = byte_def newline_def bspace_def bstrip_def cont_def second_ok_def
  space_len_def space_suffix_def strip_def lstrip.simps rstrip.simps decode_ignore.simps

lemmas mon_defs = FfmpegMon_init_def start_def PROGRESS_KEYS_def dict_get_def composite_def
  handle_line_def feed_def flush_def polled_of_code_def after_read_def poll_def stop_def
  monitored_def

subsection \<open>What the loop over the lines leaves alone\<close>

lemma handle_line_process [simp]: "process (handle_line l m) = process m"
  by (simp add: handle_line_def Let_def)

lemma fold_handle_line_process [simp]: "process (fold handle_line ls m) = process m"
  by (induction ls arbitrary: m) simp_all

lemma feed_process [simp]: "process (feed chunk m) = process m"
  by (simp add: feed_def Let_def)

lemma after_read_process [simp]: "process (after_read rd m) = process m"
  by (simp add: after_read_def split: option.splits)

lemma flush_partial_line [simp]: "partial_line (flush m) = []"
  by (simp add: flush_def Let_def)

lemma flush_process [simp]: "process (flush m) = process m"
  by (simp add: flush_def Let_def)

lemma strip_Nil [simp]: "strip [] = []"
  by (simp add: strip_def lstrip.simps rstrip.simps space_len_def space_suffix_def)

subsection \<open>The exit code comes last\<close>

text \<open>A monitor without a child holds no carry-over: true of a fresh monitor, kept by
  \<open>start\<close> and \<open>poll\<close>.\<close>

definition idle_clean :: "FfmpegMon \<Rightarrow> bool" where
  "idle_clean m = (process m = None \<longrightarrow> partial_line m = [])"

lemma idle_clean_start: "idle_clean (snd (start outcome cmd tf FfmpegMon_init))"
  by (cases outcome) (simp_all add: idle_clean_def start_def FfmpegMon_init_def)

lemma idle_clean_poll: "idle_clean m \<Longrightarrow> idle_clean (snd (poll rd st m))"
  by (auto simp: idle_clean_def poll_def Let_def split: list.splits option.splits)

lemma idle_clean_polls: "idle_clean m \<Longrightarrow> idle_clean (snd (polls obs m))"
proof (induction obs arbitrary: m)
  case Nil
  then show ?case by simp
next
  case (Cons ob obs)
  from Cons.prems have "idle_clean (snd (poll (fst ob) (snd ob) m))"
    by (rule idle_clean_poll)
  then have "idle_clean (snd (polls obs (snd (poll (fst ob) (snd ob) m))))"
    by (rule Cons.IH)
  then show ?case by (simp add: split_beta Let_def)
qed

lemma idle_clean_monitored: "idle_clean (monitored outcome cmd tf obs)"
  unfolding monitored_def by (rule idle_clean_polls) (rule idle_clean_start)

lemma poll_queued:
  "output_queue m = q # qs \<Longrightarrow> poll rd st m = (Line q, m\<lparr>output_queue := qs\<rparr>)"
  by (simp add: poll_def)

lemma poll_ExitCode:
  assumes "poll rd st m = (ExitCode c, m')" and "idle_clean m"
  shows "output_queue m = [] \<and> output_queue m' = [] \<and> partial_line m' = [] \<and>
         process m' = None \<and> return_code m' = Some c"
  using assms
  by (auto simp: poll_def Let_def idle_clean_def polled_of_code_def
      split: list.splits option.splits)

lemma poll_exited_fixpoint:
  "output_queue m = [] \<Longrightarrow> process m = None \<Longrightarrow> return_code m = Some c \<Longrightarrow>
   poll rd st m = (ExitCode c, m)"
  by (simp add: poll_def polled_of_code_def)

lemma polls_exited:
  "output_queue m = [] \<Longrightarrow> process m = None \<Longrightarrow> return_code m = Some c \<Longrightarrow>
   polls obs m = (replicate (length obs) (ExitCode c), m)"
  by (induction obs) (simp_all add: poll_exited_fixpoint)

lemma poll_exit_flush:
  assumes "output_queue m = []" and "process m \<noteq> None"
    and "strip (decode_ignore (partial_line (after_read rd m))) \<noteq> []"
  shows "fst (poll rd (Some c) m) # map Line (output_queue (snd (poll rd (Some c) m))) =
         map Line (output_queue (after_read rd m) @
                   [strip (decode_ignore (partial_line (after_read rd m)))])"
proof -
  let ?m1 = "after_read rd m"
  from assms(3) have ne: "partial_line ?m1 \<noteq> []" by auto
  then have q: "output_queue (flush ?m1) =
      output_queue ?m1 @ [strip (decode_ignore (partial_line ?m1))]"
    using assms(3) by (simp add: flush_def Let_def)
  from assms(1,2) q show ?thesis
    by (cases "output_queue ?m1") (auto simp: poll_def Let_def)
qed

text \<open>
  C1. Let \<open>m\<close> be the monitor after \<open>start\<close> and any run of \<open>poll\<close> calls, whatever the
  child wrote and whenever it exited. (1) A queued event is returned first, in the order
  of the queue. (2) Once the child has exited, a trailing line with no newline whose
  decoded, trimmed text is not empty is queued behind the lines of the same read, so the
  call's result followed by the queue it leaves is exactly those lines and then the
  trailing line. (3) A call that returns the integer exit code found the queue empty,
  leaves the queue and the carry-over empty, and every later call returns the same code.
\<close>

theorem poll_exit_code_after_drain:
  assumes "m = monitored outcome cmd tf obs"
  shows "(output_queue m = q # qs \<longrightarrow> poll rd st m = (Line q, m\<lparr>output_queue := qs\<rparr>)) \<and>
         (output_queue m = [] \<and> process m \<noteq> None \<and>
          strip (decode_ignore (partial_line (after_read rd m))) \<noteq> [] \<longrightarrow>
            fst (poll rd (Some c) m) # map Line (output_queue (snd (poll rd (Some c) m))) =
            map Line (output_queue (after_read rd m) @
                      [strip (decode_ignore (partial_line (after_read rd m)))])) \<and>
         (poll rd st m = (ExitCode c, m') \<longrightarrow>
            output_queue m = [] \<and> output_queue m' = [] \<and> partial_line m' = [] \<and>
            fst (polls later m') = replicate (length later) (ExitCode c))"
proof -
  have fifo: "output_queue m = q # qs \<longrightarrow> poll rd st m = (Line q, m\<lparr>output_queue := qs\<rparr>)"
    by (simp add: poll_queued)
  have flushed: "output_queue m = [] \<and> process m \<noteq> None \<and>
          strip (decode_ignore (partial_line (after_read rd m))) \<noteq> [] \<longrightarrow>
            fst (poll rd (Some c) m) # map Line (output_queue (snd (poll rd (Some c) m))) =
            map Line (output_queue (after_read rd m) @
                      [strip (decode_ignore (partial_line (after_read rd m)))])"
    by (simp add: poll_exit_flush)
  have last: "poll rd st m = (ExitCode c, m') \<longrightarrow>
            output_queue m = [] \<and> output_queue m' = [] \<and> partial_line m' = [] \<and>
            fst (polls later m') = replicate (length later) (ExitCode c)"
  proof
    assume ex: "poll rd st m = (ExitCode c, m')"
    have "idle_clean m" unfolding assms by (rule idle_clean_monitored)
    with ex have *: "output_queue m = [] \<and> output_queue m' = [] \<and> partial_line m' = [] \<and>
           process m' = None \<and> return_code m' = Some c"
      by (rule poll_ExitCode)
    then have "polls later m' = (replicate (length later) (ExitCode c), m')"
      by (simp add: polls_exited)
    with * show "output_queue m = [] \<and> output_queue m' = [] \<and> partial_line m' = [] \<and>
              fst (polls later m') = replicate (length later) (ExitCode c)"
      by simp
  qed
  from fifo flushed last show ?thesis by (intro conjI)
qed

text \<open>
  The theorem at work on a child that writes \<open>a\<close>, a newline and \<open>bc\<close> and exits with
  code 3: the read leaves \<open>a\<close> queued and \<open>bc\<close> carried over; once \<open>a\<close> is handed out, the
  exit flushes \<open>bc\<close>; then comes the code, again and again.
\<close>

definition abc :: bytes where
  "abc = ''a'' @ [newline] @ ''bc''"

lemma abc_after_read: "monitored Launched [''ffmpeg''] None [(Some abc, None)] = 
   \<lparr>process = Some [''ffmpeg''], partial_line = ''bc'', output_queue = [''a''], return_code = None,
      temp_file = None, progress_buffer = []\<rparr>"
  by code_simp

lemma abc_after_pop: "monitored Launched [''ffmpeg''] None [(Some abc, None), (None, None)] = 
   \<lparr>process = Some [''ffmpeg''], partial_line = ''bc'', output_queue = [], return_code = None,
      temp_file = None, progress_buffer = []\<rparr>"
  by code_simp

lemma abc_after_flush: "monitored Launched [''ffmpeg''] None [(Some abc, None), (None, None), (None, Some 3)] = 
   \<lparr>process = Some [''ffmpeg''], partial_line = [], output_queue = [], return_code = Some 3,
      temp_file = None, progress_buffer = []\<rparr>"
  by code_simp

lemma strip_decode_bc: "strip (decode_ignore ''bc'') = ''bc''"
  by code_simp

theorem poll_exit_code_after_drain_witness:
  "output_queue (monitored Launched [''ffmpeg''] None [(Some abc, None)]) = [''a''] \<and>
   fst (poll None None (monitored Launched [''ffmpeg''] None [(Some abc, None)])) = Line ''a'' \<and>
   fst (poll None (Some 3) (monitored Launched [''ffmpeg''] None [(Some abc, None), (None, None)])) = Line ''bc'' \<and>
   fst (poll (Some []) (Some 3) (monitored Launched [''ffmpeg''] None [(Some abc, None), (None, None), (None, Some 3)])) = ExitCode 3 \<and>
   fst (polls [(None, None), (Some ''x'', None)]
     (snd (poll (Some []) (Some 3) (monitored Launched [''ffmpeg''] None [(Some abc, None), (None, None), (None, Some 3)]))))
     = [ExitCode 3, ExitCode 3]"
proof -
  let ?m1 = "monitored Launched [''ffmpeg''] None [(Some abc, None)]"
  let ?m2 = "monitored Launched [''ffmpeg''] None [(Some abc, None), (None, None)]"
  let ?m3 = "monitored Launched [''ffmpeg''] None [(Some abc, None), (None, None), (None, Some 3)]"
  have q1: "output_queue ?m1 = ''a'' # []" by (simp add: abc_after_read)
  have h2: "output_queue ?m2 = [] \<and> process ?m2 \<noteq> None \<and>
          strip (decode_ignore (partial_line (after_read None ?m2))) \<noteq> []"
    by (simp add: abc_after_pop strip_decode_bc after_read_def)
  have h3: "poll (Some []) (Some 3) ?m3 = (ExitCode 3, snd (poll (Some []) (Some 3) ?m3))"
    by (simp add: abc_after_flush poll_def after_read_def flush_def)
  from poll_exit_code_after_drain [OF refl, of Launched "[''ffmpeg'']" None "[(Some abc, None)]"
      "''a''" "[]" None None]
  have c1: "fst (poll None None ?m1) = Line ''a''" using q1 by simp
  from poll_exit_code_after_drain [OF refl, of Launched "[''ffmpeg'']" None "[(Some abc, None), (None, None)]"
      _ _ None _ 3]
  have c2: "fst (poll None (Some 3) ?m2) = Line ''bc''" using h2 by (simp add: abc_after_pop strip_decode_bc after_read_def)
  from poll_exit_code_after_drain [OF refl, of Launched "[''ffmpeg'']" None "[(Some abc, None), (None, None), (None, Some 3)]"
      _ _ "Some []" "Some 3" 3 "snd (poll (Some []) (Some 3) ?m3)"
      "[(None, None), (Some ''x'', None)]"]
  have c3: "fst (polls [(None, None), (Some ''x'', None)] (snd (poll (Some []) (Some 3) ?m3)))
     = [ExitCode 3, ExitCode 3]" using h3 by (simp add: numeral_2_eq_2)
  from q1 c1 c2 c3 h3 show ?thesis by (metis fst_conv)
qed

subsection \<open>Starting twice\<close>

text \<open>
  C10. \<open>start\<close> on a monitor that already has a child raises, and the monitor it leaves
  differs from the one before in the temp file only, which is now the argument of the
  refused call. A \<open>stop\<close> that follows removes that file, when it is a non-empty name of
  a file that exists, and no other.
\<close>

theorem start_while_monitoring_overwrites_temp_file:
  assumes "process m \<noteq> None"
  shows "start outcome cmd tf m = (Inl RuntimeError, m\<lparr>temp_file := tf\<rparr>) \<and>
         (Unlink f \<in> set (fst (stop alive graceful exists rc (snd (start outcome cmd tf m))))
            \<longleftrightarrow> tf = Some f \<and> f \<noteq> [] \<and> exists f)"
  using assms by (auto simp: start_def stop_def Let_def split: option.splits)

theorem start_while_monitoring_overwrites_temp_file_witness:
  "process (snd (start Launched [''ffmpeg''] (Some ''TEMP.a.mkv'') FfmpegMon_init)) \<noteq> None \<and>
   fst (start Launched [''ffmpeg''] (Some ''TEMP.b.mkv'')
         (snd (start Launched [''ffmpeg''] (Some ''TEMP.a.mkv'') FfmpegMon_init)))
     = Inl RuntimeError \<and>
   Unlink ''TEMP.b.mkv'' \<in> set (fst (stop True True (\<lambda>f. True) 255
     (snd (start Launched [''ffmpeg''] (Some ''TEMP.b.mkv'')
         (snd (start Launched [''ffmpeg''] (Some ''TEMP.a.mkv'') FfmpegMon_init)))))) \<and>
   Unlink ''TEMP.a.mkv'' \<notin> set (fst (stop True True (\<lambda>f. True) 255
     (snd (start Launched [''ffmpeg''] (Some ''TEMP.b.mkv'')
         (snd (start Launched [''ffmpeg''] (Some ''TEMP.a.mkv'') FfmpegMon_init))))))"
  using
    start_while_monitoring_overwrites_temp_file
      [of "snd (start Launched [''ffmpeg''] (Some ''TEMP.a.mkv'') FfmpegMon_init)"
          Launched "[''ffmpeg'']" "Some ''TEMP.b.mkv''" "''TEMP.b.mkv''" True True
          "\<lambda>f. True" 255]
    start_while_monitoring_overwrites_temp_file
      [of "snd (start Launched [''ffmpeg''] (Some ''TEMP.a.mkv'') FfmpegMon_init)"
          Launched "[''ffmpeg'']" "Some ''TEMP.b.mkv''" "''TEMP.a.mkv''" True True
          "\<lambda>f. True" 255]
  by (simp add: FfmpegMon_init_def start_def)

subsection \<open>One progress group in one read\<close>

definition four_lines :: "string \<Rightarrow> bytes" where
  "four_lines time_key =
     ''frame=100'' @ [newline] @ time_key @ ''=00:01:30.50'' @ [newline] @
     ''speed=2.0'' @ [newline] @ ''progress=continue'' @ [newline]"

text \<open>
  With the lines \<open>frame=100\<close>, \<open>time=00:01:30.50\<close>, \<open>speed=2.0\<close>, \<open>progress=continue\<close>
  in one read, \<open>poll\<close> hands out two events, not one: \<open>time\<close> is not in
  \<open>PROGRESS_KEYS\<close>, so that line is a log line, and the snapshot carries the default
  time and the prefix \<open>PROGRESS:\<close>.
\<close>

theorem four_lines_time_counterexample:
  "fst (polls [(Some (four_lines ''time''), None), (None, None), (None, None), (None, None)]
         (monitored Launched [''ffmpeg''] None []))
     = [NoEvent, Line ''time=00:01:30.50'',
        Line ''PROGRESS:frame=100 fps=0 bitrate=0 time=00:00:00.00 speed=2.0x'', NoEvent] \<and>
   Line ''frame=100 fps=0 bitrate=0 time=00:01:30.50 speed=2.0x'' \<notin>
     set (fst (polls [(Some (four_lines ''time''), None), (None, None), (None, None), (None, None)]
         (monitored Launched [''ffmpeg''] None [])))"
  by (simp add: four_lines_def text_defs mon_defs)

text \<open>
  C5 (amended). With \<open>out_time=00:01:30.50\<close> as the second line, the read yields exactly
  one event, the snapshot \<open>PROGRESS:frame=100 fps=0 bitrate=0 time=00:01:30.50 speed=2.0x\<close>.
  With \<open>time=00:01:30.50\<close> the read yields that line as a log line and then exactly one
  snapshot, \<open>PROGRESS:frame=100 fps=0 bitrate=0 time=00:00:00.00 speed=2.0x\<close>.
\<close>

theorem four_lines_one_snapshot:
  "fst (polls [(Some (four_lines ''out_time''), None), (None, None), (None, None)]
         (monitored Launched [''ffmpeg''] None []))
     = [NoEvent, Line ''PROGRESS:frame=100 fps=0 bitrate=0 time=00:01:30.50 speed=2.0x'',
        NoEvent] \<and>
   fst (polls [(Some (four_lines ''time''), None), (None, None), (None, None), (None, None)]
         (monitored Launched [''ffmpeg''] None []))
     = [NoEvent, Line ''time=00:01:30.50'',
        Line ''PROGRESS:frame=100 fps=0 bitrate=0 time=00:00:00.00 speed=2.0x'', NoEvent]"
  by (simp add: four_lines_def text_defs mon_defs)

subsection \<open>Chunk boundaries\<close>

text \<open>
  A caller that polls until the exit code arrives, against a child that writes a stream
  of bytes and exits with \<open>code\<close>. \<open>chunks\<close> is the stream as the reads will deliver it:
  each call of \<open>poll\<close> that reaches the read gets the next chunk. The child is found
  alive at these reads, except that with \<open>together\<close> the read of the last chunk already
  finds it exited; every read after the last chunk gets the empty bytes of the end of
  the stream and finds the child exited. The result is the list of the strings that
  \<open>poll\<close> returned, in order.
\<close>

function drive :: "bool \<Rightarrow> bytes list \<Rightarrow> int \<Rightarrow> FfmpegMon \<Rightarrow> string list" where
  "drive together chunks code m =
     (if output_queue m \<noteq> [] \<or> process m = None then
        (case poll None None m of
           (Line l, m') \<Rightarrow> l # drive together chunks code m'
         | (_, m') \<Rightarrow> [])
      else
        (case chunks of
           [] \<Rightarrow>
             (case poll (Some []) (Some code) m of
                (Line l, m') \<Rightarrow> l # drive together [] code m'
              | (_, m') \<Rightarrow> [])
         | chunk # rest \<Rightarrow>
             (case poll (Some chunk) (if together \<and> rest = [] then Some code else None) m of
                (Line l, m') \<Rightarrow> l # drive together rest code m'
              | (NoEvent, m') \<Rightarrow> drive together rest code m'
              | (ExitCode c, m') \<Rightarrow> [])))"
  by pat_completeness auto
termination
proof (relation "measures [\<lambda>(together, chunks, code, m). length chunks,
                           \<lambda>(together, chunks, code, m). length (output_queue m),
                           \<lambda>(together, chunks, code, m). length (partial_line m)]", goal_cases)
  case 1
  show ?case by simp
next
  case (2 together chunks code m x1 x2 x3)
  then show ?case
    by (auto simp: poll_def polled_of_code_def split: list.splits option.splits)
next
  case (3 together chunks code m x1 x2 x3)
  then show ?case
    by (auto simp: poll_def after_read_def flush_def Let_def split: list.splits option.splits if_splits)
next
  case 4
  then show ?case by simp
next
  case 5
  then show ?case by simp
qed

declare drive.simps [simp del]

text \<open>The queue in front of a read plays no part in what the read appends.\<close>
lemma handle_line_queue:
  "handle_line l (m\<lparr>output_queue := q\<rparr>) =
   (handle_line l (m\<lparr>output_queue := []\<rparr>))
     \<lparr>output_queue := q @ output_queue (handle_line l (m\<lparr>output_queue := []\<rparr>))\<rparr>"
  by (simp add: handle_line_def Let_def)

lemma fold_handle_line_queue:
  "fold handle_line ls (m\<lparr>output_queue := q\<rparr>) =
   (fold handle_line ls (m\<lparr>output_queue := []\<rparr>))
     \<lparr>output_queue := q @ output_queue (fold handle_line ls (m\<lparr>output_queue := []\<rparr>))\<rparr>"
proof (induction ls arbitrary: m q)
  case Nil
  show ?case by simp
next
  case (Cons l ls)
  let ?h = "handle_line l (m\<lparr>output_queue := []\<rparr>)"
  have h: "handle_line l (m\<lparr>output_queue := q\<rparr>) = ?h\<lparr>output_queue := q @ output_queue ?h\<rparr>"
    by (rule handle_line_queue)
  have a: "fold handle_line ls (?h\<lparr>output_queue := q @ output_queue ?h\<rparr>) =
      (fold handle_line ls (?h\<lparr>output_queue := []\<rparr>))
        \<lparr>output_queue := (q @ output_queue ?h) @
            output_queue (fold handle_line ls (?h\<lparr>output_queue := []\<rparr>))\<rparr>"
    by (rule Cons.IH)
  have b: "fold handle_line ls ?h =
      (fold handle_line ls (?h\<lparr>output_queue := []\<rparr>))
        \<lparr>output_queue := output_queue ?h @
            output_queue (fold handle_line ls (?h\<lparr>output_queue := []\<rparr>))\<rparr>"
    using Cons.IH [where m = ?h and q = "output_queue ?h"] by simp
  show ?case
    by (simp add: h a) (simp add: b)
qed

text \<open>Splitting a text that arrives in two parts.\<close>

lemma split_bytes_nonempty [simp]: "split_bytes sep xs \<noteq> []"
  by (induction xs) (auto split: list.splits)

lemma split_bytes_append:
  "split_bytes sep (xs @ ys) =
   butlast (split_bytes sep xs) @ split_bytes sep (last (split_bytes sep xs) @ ys)"
proof (induction xs)
  case Nil
  show ?case by simp
next
  case (Cons x xs)
  show ?case
  proof (cases "x = sep")
    case True
    with Cons show ?thesis by simp
  next
    case False
    obtain f fs where f: "split_bytes sep xs = f # fs"
      by (cases "split_bytes sep xs") simp_all
    obtain g gs where g: "split_bytes sep (xs @ ys) = g # gs"
      by (cases "split_bytes sep (xs @ ys)") simp_all
    show ?thesis
    proof (cases fs)
      case Nil
      with False f g Cons show ?thesis by simp
    next
      case (Cons f' fs')
      with False f g Cons.IH show ?thesis by simp
    qed
  qed
qed

lemma handle_line_partial_line [simp]: "partial_line (handle_line l m) = partial_line m"
  by (simp add: handle_line_def Let_def)

lemma fold_handle_line_partial_line [simp]:
  "partial_line (fold handle_line ls m) = partial_line m"
  by (induction ls arbitrary: m) simp_all

lemma handle_line_set_partial:
  "handle_line l (m\<lparr>partial_line := p\<rparr>) = (handle_line l m)\<lparr>partial_line := p\<rparr>"
  by (simp add: handle_line_def Let_def)

lemma fold_handle_line_set_partial:
  "fold handle_line ls (m\<lparr>partial_line := p\<rparr>) = (fold handle_line ls m)\<lparr>partial_line := p\<rparr>"
  by (induction ls arbitrary: m) (simp_all add: handle_line_set_partial)

lemma feed_alt:
  "feed chunk m =
     (fold handle_line (butlast (split_bytes newline (partial_line m @ chunk))) m)
       \<lparr>partial_line := last (split_bytes newline (partial_line m @ chunk))\<rparr>"
  by (simp add: feed_def Let_def fold_handle_line_set_partial)

lemma feed_queue:
  "feed chunk (m\<lparr>output_queue := q\<rparr>) =
   (feed chunk (m\<lparr>output_queue := []\<rparr>))
     \<lparr>output_queue := q @ output_queue (feed chunk (m\<lparr>output_queue := []\<rparr>))\<rparr>"
proof -
  let ?ls = "butlast (split_bytes newline (partial_line m @ chunk))"
  have "fold handle_line ?ls (m\<lparr>output_queue := q\<rparr>) =
      (fold handle_line ?ls (m\<lparr>output_queue := []\<rparr>))
        \<lparr>output_queue := q @ output_queue (fold handle_line ?ls (m\<lparr>output_queue := []\<rparr>))\<rparr>"
    by (rule fold_handle_line_queue)
  then show ?thesis by (simp add: feed_alt)
qed

lemma after_read_queue:
  "after_read rd (m\<lparr>output_queue := q\<rparr>) =
   (after_read rd (m\<lparr>output_queue := []\<rparr>))
     \<lparr>output_queue := q @ output_queue (after_read rd (m\<lparr>output_queue := []\<rparr>))\<rparr>"
proof (cases rd)
  case None
  then show ?thesis by (simp add: after_read_def)
next
  case (Some chunk)
  show ?thesis
  proof (cases "chunk = []")
    case True
    with Some show ?thesis by (simp add: after_read_def)
  next
    case False
    with Some show ?thesis using feed_queue [where chunk = chunk and m = m and q = q] by (simp add: after_read_def)
  qed
qed

lemma feed_feed: "feed c2 (feed c1 m) = feed (c1 @ c2) m"
proof -
  let ?s1 = "split_bytes newline (partial_line m @ c1)"
  let ?s2 = "split_bytes newline (last ?s1 @ c2)"
  have s: "split_bytes newline (partial_line m @ c1 @ c2) = butlast ?s1 @ ?s2"
    using split_bytes_append [of newline "partial_line m @ c1" c2] by simp
  have bl: "butlast (butlast ?s1 @ ?s2) = butlast ?s1 @ butlast ?s2"
    by (simp add: butlast_append)
  have la: "last (butlast ?s1 @ ?s2) = last ?s2" by simp
  have "feed c2 (feed c1 m) =
      fold handle_line (butlast ?s2)
        ((fold handle_line (butlast ?s1) (m\<lparr>partial_line := last ?s1\<rparr>))\<lparr>partial_line := last ?s2\<rparr>)"
    by (simp add: feed_def Let_def)
  also have "\<dots> = fold handle_line (butlast ?s2)
        (fold handle_line (butlast ?s1) (m\<lparr>partial_line := last ?s2\<rparr>))"
    by (simp add: fold_handle_line_set_partial)
  also have "\<dots> = fold handle_line (butlast ?s1 @ butlast ?s2) (m\<lparr>partial_line := last ?s2\<rparr>)"
    by simp
  also have "\<dots> = feed (c1 @ c2) m"
    by (simp add: feed_def Let_def s bl la)
  finally show ?thesis .
qed

lemma after_read_after_read:
  "after_read (Some c2) (after_read (Some c1) m) = after_read (Some (c1 @ c2)) m"
  by (simp add: after_read_def feed_feed)

lemma drive_drain: "drive together chunks code m = output_queue m @ drive together chunks code (m\<lparr>output_queue := []\<rparr>)"
proof (induction "output_queue m" arbitrary: m)
  case Nil
  then have "m\<lparr>output_queue := []\<rparr> = m" by simp
  then have "drive together chunks code (m\<lparr>output_queue := []\<rparr>) = drive together chunks code m" by simp
  with Nil [symmetric] show ?case by simp
next
  case (Cons q qs)
  from Cons(2) have q: "output_queue m = q # qs" by simp
  then have p: "poll None None m = (Line q, m\<lparr>output_queue := qs\<rparr>)" by (rule poll_queued)
  have "drive together chunks code m = q # drive together chunks code (m\<lparr>output_queue := qs\<rparr>)"
    by (subst drive.simps) (simp add: q p)
  also have "drive together chunks code (m\<lparr>output_queue := qs\<rparr>) =
      qs @ drive together chunks code (m\<lparr>output_queue := qs\<rparr>\<lparr>output_queue := []\<rparr>)"
    using Cons(1) [of "m\<lparr>output_queue := qs\<rparr>"] by simp
  finally show ?case by (simp add: q)
qed

lemma drive_no_child:
  assumes "process m = None"
  shows "drive together chunks code m = output_queue m"
proof -
  have "drive together chunks code (m\<lparr>output_queue := []\<rparr>) = []"
    using assms
    by (subst drive.simps) (simp add: poll_def polled_of_code_def split: option.splits)
  then show ?thesis using drive_drain [of together chunks code m] by simp
qed

lemma drive_read:
  assumes "output_queue m = []" and "process m \<noteq> None" and "\<not> together \<or> rest \<noteq> []"
  shows "drive together (chunk # rest) code m =
         drive together rest code (after_read (Some chunk) m)"
  using assms by (subst drive.simps) (auto simp: poll_def)

lemma drive_join:
  assumes "output_queue m = []" and "process m \<noteq> None"
  shows "drive False (c1 # c2 # rest) code m = drive False ((c1 @ c2) # rest) code m"
proof -
  let ?m1 = "after_read (Some c1) m"
  let ?y = "after_read (Some c2) (?m1\<lparr>output_queue := []\<rparr>)"
  let ?x = "after_read (Some (c1 @ c2)) m"
  have x: "?x = ?y\<lparr>output_queue := output_queue ?m1 @ output_queue ?y\<rparr>"
  proof -
    have "?x = after_read (Some c2) (?m1\<lparr>output_queue := output_queue ?m1\<rparr>)"
      by (simp add: after_read_after_read)
    then show ?thesis by (simp only: after_read_queue [where q = "output_queue ?m1"])
  qed
  have "drive False (c1 # c2 # rest) code m = drive False (c2 # rest) code ?m1"
    using assms by (intro drive_read) simp_all
  also have "\<dots> = output_queue ?m1 @ drive False (c2 # rest) code (?m1\<lparr>output_queue := []\<rparr>)"
    by (rule drive_drain)
  also have "drive False (c2 # rest) code (?m1\<lparr>output_queue := []\<rparr>) = drive False rest code ?y"
    using assms by (intro drive_read) simp_all
  also have "drive False rest code ?y = output_queue ?y @ drive False rest code (?y\<lparr>output_queue := []\<rparr>)"
    by (rule drive_drain)
  finally have l: "drive False (c1 # c2 # rest) code m =
      output_queue ?m1 @ output_queue ?y @ drive False rest code (?y\<lparr>output_queue := []\<rparr>)" .
  have "drive False ((c1 @ c2) # rest) code m = drive False rest code ?x"
    using assms by (intro drive_read) simp_all
  also have "\<dots> = output_queue ?x @ drive False rest code (?x\<lparr>output_queue := []\<rparr>)"
    by (rule drive_drain)
  also have "output_queue ?x = output_queue ?m1 @ output_queue ?y"
    by (subst x) simp
  also have "?x\<lparr>output_queue := []\<rparr> = ?y\<lparr>output_queue := []\<rparr>"
    by (subst x) simp
  finally show ?thesis using l by simp
qed

lemma drive_concat_ready:
  assumes "output_queue m = []" and "process m \<noteq> None"
  shows "drive False chunks code m = drive False [concat chunks] code m"
proof (induction "length chunks" arbitrary: chunks rule: less_induct)
  case less
  show ?case
  proof (cases chunks)
    case Nil
    have "drive False [[]] code m = drive False [] code (after_read (Some []) m)"
      using assms by (intro drive_read) simp_all
    with Nil show ?thesis by (simp add: after_read_def)
  next
    case (Cons c1 cs)
    show ?thesis
    proof (cases cs)
      case Nil
      with Cons show ?thesis by simp
    next
      case (Cons c2 rest)
      have "drive False (c1 # c2 # rest) code m = drive False ((c1 @ c2) # rest) code m"
        using assms by (rule drive_join)
      also have "\<dots> = drive False [concat ((c1 @ c2) # rest)] code m"
        using less [of "(c1 @ c2) # rest"] \<open>chunks = c1 # cs\<close> Cons by simp
      finally show ?thesis using \<open>chunks = c1 # cs\<close> Cons by simp
    qed
  qed
qed

text \<open>The end of the run: what the exit flushes is handed out, then comes the code.\<close>

lemma drive_done:
  assumes "output_queue m = []" and "process m \<noteq> None" and "partial_line m = []"
  shows "drive together [] code m = []"
  using assms
  by (subst drive.simps) (auto simp: poll_def after_read_def flush_def split: option.splits)

lemma drive_flushed:
  assumes "process m \<noteq> None"
  shows "drive together [] code ((flush m)\<lparr>return_code := rc, output_queue := []\<rparr>) = []"
  using assms by (intro drive_done) simp_all

lemma drive_exit_alone:
  assumes "output_queue m = []" and "process m \<noteq> None"
  shows "drive together [] code m = output_queue (flush m)"
proof (cases "output_queue (flush m)")
  case Nil
  with assms show ?thesis
    by (subst drive.simps) (auto simp: poll_def after_read_def split: option.splits)
next
  case (Cons q qs)
  let ?m' = "(flush m)\<lparr>return_code := Some code, output_queue := qs\<rparr>"
  from assms Cons have "drive together [] code m = q # drive together [] code ?m'"
    by (subst drive.simps) (auto simp: poll_def after_read_def split: option.splits)
  also have "drive together [] code ?m' =
      output_queue ?m' @ drive together [] code (?m'\<lparr>output_queue := []\<rparr>)"
    by (rule drive_drain)
  also have "drive together [] code (?m'\<lparr>output_queue := []\<rparr>) = []"
    using assms(2) drive_flushed [of m together code "Some code"] by simp
  finally show ?thesis using Cons by simp
qed

lemma flush_queue:
  "output_queue (flush m) = output_queue m @ output_queue (flush (m\<lparr>output_queue := []\<rparr>))"
  by (simp add: flush_def Let_def)

lemma drive_last_apart:
  assumes "output_queue m = []" and "process m \<noteq> None"
  shows "drive False [chunk] code m = output_queue (flush (after_read (Some chunk) m))"
proof -
  let ?m1 = "after_read (Some chunk) m"
  have "drive False [chunk] code m = drive False [] code ?m1"
    using assms by (intro drive_read) simp_all
  also have "\<dots> = output_queue ?m1 @ drive False [] code (?m1\<lparr>output_queue := []\<rparr>)"
    by (rule drive_drain)
  also have "drive False [] code (?m1\<lparr>output_queue := []\<rparr>) =
      output_queue (flush (?m1\<lparr>output_queue := []\<rparr>))"
    using assms by (intro drive_exit_alone) simp_all
  finally show ?thesis by (simp add: flush_queue [of ?m1])
qed

lemma drive_last_together:
  assumes "output_queue m = []" and "process m \<noteq> None"
  shows "drive True [chunk] code m = output_queue (flush (after_read (Some chunk) m))"
proof (cases "output_queue (flush (after_read (Some chunk) m))")
  case Nil
  with assms show ?thesis
    by (subst drive.simps) (auto simp: poll_def split: option.splits)
next
  case (Cons q qs)
  let ?m' = "(flush (after_read (Some chunk) m))\<lparr>return_code := Some code, output_queue := qs\<rparr>"
  from assms Cons have "drive True [chunk] code m = q # drive True [] code ?m'"
    by (subst drive.simps) (auto simp: poll_def split: option.splits)
  also have "drive True [] code ?m' =
      output_queue ?m' @ drive True [] code (?m'\<lparr>output_queue := []\<rparr>)"
    by (rule drive_drain)
  also have "drive True [] code (?m'\<lparr>output_queue := []\<rparr>) = []"
    using assms(2) drive_flushed [of "after_read (Some chunk) m" True code "Some code"] by simp
  finally show ?thesis using Cons by simp
qed

lemma drive_together_ready:
  assumes "output_queue m = []" and "process m \<noteq> None"
  shows "drive True chunks code m = drive False chunks code m"
  using assms
proof (induction chunks arbitrary: m)
  case Nil
  then show ?case by (simp add: drive_exit_alone)
next
  case (Cons c1 cs)
  show ?case
  proof (cases cs)
    case Nil
    with Cons.prems show ?thesis by (simp add: drive_last_together drive_last_apart)
  next
    case (Cons c2 rest)
    let ?m1 = "after_read (Some c1) m"
    have "drive True (c1 # cs) code m = drive True cs code ?m1"
      using Cons.prems Cons by (intro drive_read) simp_all
    also have "\<dots> = output_queue ?m1 @ drive True cs code (?m1\<lparr>output_queue := []\<rparr>)"
      by (rule drive_drain)
    also have "drive True cs code (?m1\<lparr>output_queue := []\<rparr>) =
        drive False cs code (?m1\<lparr>output_queue := []\<rparr>)"
      using Cons.prems by (intro Cons.IH) simp_all
    also have "output_queue ?m1 @ drive False cs code (?m1\<lparr>output_queue := []\<rparr>) =
        drive False cs code ?m1"
      by (rule drive_drain [symmetric])
    also have "\<dots> = drive False (c1 # cs) code m"
      using Cons.prems by (intro drive_read [symmetric]) simp_all
    finally show ?thesis .
  qed
qed

lemma drive_together: "drive together chunks code m = drive False chunks code m"
proof (cases together)
  case False
  then show ?thesis by simp
next
  case True
  show ?thesis
  proof (cases "process m = None")
    case None: True
    then show ?thesis by (simp add: drive_no_child)
  next
    case False
    have "drive True chunks code m = output_queue m @ drive True chunks code (m\<lparr>output_queue := []\<rparr>)"
      by (rule drive_drain)
    also have "drive True chunks code (m\<lparr>output_queue := []\<rparr>) =
        drive False chunks code (m\<lparr>output_queue := []\<rparr>)"
      using False by (intro drive_together_ready) simp_all
    also have "output_queue m @ drive False chunks code (m\<lparr>output_queue := []\<rparr>) =
        drive False chunks code m"
      by (rule drive_drain [symmetric])
    finally show ?thesis using True by simp
  qed
qed

lemma drive_concat: "drive False chunks code m = drive False [concat chunks] code m"
proof (cases "process m = None")
  case True
  then show ?thesis by (simp add: drive_no_child)
next
  case False
  have "drive False chunks code m = output_queue m @ drive False chunks code (m\<lparr>output_queue := []\<rparr>)"
    by (rule drive_drain)
  also have "drive False chunks code (m\<lparr>output_queue := []\<rparr>) =
      drive False [concat chunks] code (m\<lparr>output_queue := []\<rparr>)"
    using False by (intro drive_concat_ready) simp_all
  also have "output_queue m @ drive False [concat chunks] code (m\<lparr>output_queue := []\<rparr>) =
      drive False [concat chunks] code m"
    by (rule drive_drain [symmetric])
  finally show ?thesis .
qed

text \<open>
  C2. However the bytes of the child are cut into reads, also inside a UTF-8 sequence or
  inside a \<open>key=value\<close> line, the caller receives the same log lines and snapshots in the
  same order as from one read of the whole stream, from any state of the monitor, and
  whether or not the exit is already seen at the read of the last chunk.
\<close>

theorem chunking_does_not_change_events:
  "drive together chunks code m = drive together' [concat chunks] code m"
proof -
  have "drive together chunks code m = drive False chunks code m"
    by (rule drive_together)
  also have "\<dots> = drive False [concat chunks] code m"
    by (rule drive_concat)
  also have "\<dots> = drive together' [concat chunks] code m"
    by (rule drive_together [symmetric])
  finally show ?thesis .
qed

text \<open>A stream cut inside \<open>frame\<close>, inside \<open>progress\<close> and between the two bytes of U+00E9.\<close>

lemma cut_stream_events:
  "drive False [''fra'', ''me=1'' @ [newline] @ ''progr'', ''ess=end'' @ [newline] @ ''caf'',
          [CHR 0xC3], [CHR 0xA9, newline, CHR ''x'']] 0 (monitored Launched [''ffmpeg''] None [])
   = [''PROGRESS:frame=1 fps=0 bitrate=0 time=00:00:00.00 speed=0x'',
      [CHR ''c'', CHR ''a'', CHR ''f'', CHR 0xC3, CHR 0xA9], ''x'']"
  by code_simp

theorem chunking_does_not_change_events_witness:
  "drive True [concat [''fra'', ''me=1'' @ [newline] @ ''progr'', ''ess=end'' @ [newline] @ ''caf'',
          [CHR 0xC3], [CHR 0xA9, newline, CHR ''x'']]] 0 (monitored Launched [''ffmpeg''] None [])
   = [''PROGRESS:frame=1 fps=0 bitrate=0 time=00:00:00.00 speed=0x'',
      [CHR ''c'', CHR ''a'', CHR ''f'', CHR 0xC3, CHR 0xA9], ''x'']"
  using chunking_does_not_change_events
    [of False "[''fra'', ''me=1'' @ [newline] @ ''progr'', ''ess=end'' @ [newline] @ ''caf'',
          [CHR 0xC3], [CHR 0xA9, newline, CHR ''x'']]" 0 "monitored Launched [''ffmpeg''] None []"
        True]
  by (simp only: cut_stream_events)

section \<open>The two regular expressions of JobHandler.py\<close>

text \<open>
  \<open>PROGRESS_RE\<close> is, with \<open>re.IGNORECASE\<close>,
  \<^verbatim>\<open>\s*frame[=\s]+(\d+)\s+(?:.*?time[=\s]+(\d{2}):(\d{2}):(\d{2})\.(\d+))?(?:.*?speed[=\s]+(\d+\.\d+)x)?\<close>
  and is used with \<open>search\<close>. Every repetition in it is followed by something its own
  class excludes, so a match, where there is one, is found without backtracking: the
  first place where the frame part matches decides the match, the time part is taken at
  the first place after it where it matches on the same line, and the speed part
  likewise after that. \<open>\s\<close> is the whitespace of \<open>str.isspace\<close>. Under
  \<open>IGNORECASE\<close> a letter matches both its cases, \<open>i\<close> also U+0130 and U+0131, \<open>s\<close>
  also U+017F. \<open>\d\<close> is read as the ten ASCII digits; the other decimal digits of
  Unicode, which \<open>\d\<close> and \<open>int\<close> accept as well, are left out.
\<close>

definition digit :: "char \<Rightarrow> bool" where
  "digit c = (48 \<le> byte c \<and> byte c \<le> 57)"

definition int_of_digits :: "string \<Rightarrow> nat" where
  "int_of_digits ds = foldl (\<lambda>a c. 10 * a + (byte c - 48)) 0 ds"

text \<open>\<open>ci_char p s\<close>: the number of bytes at the head of \<open>s\<close> that the pattern letter
  \<open>p\<close> matches, 0 when it does not match.\<close>

fun ci_char :: "char \<Rightarrow> string \<Rightarrow> nat" where
  "ci_char p [] = 0"
| "ci_char p (c # cs) =
     (if c = p \<or> byte c + 32 = byte p then 1
      else if p = CHR ''i'' \<and> byte c = 0xC4 \<and>
              (case cs of [] \<Rightarrow> False | d # _ \<Rightarrow> byte d = 0xB0 \<or> byte d = 0xB1) then 2
      else if p = CHR ''s'' \<and> byte c = 0xC5 \<and>
              (case cs of [] \<Rightarrow> False | d # _ \<Rightarrow> byte d = 0xBF) then 2
      else 0)"

fun ci_literal :: "string \<Rightarrow> string \<Rightarrow> string option" where
  "ci_literal [] s = Some s"
| "ci_literal (p # ps) s =
     (if ci_char p s = 0 then None else ci_literal ps (drop (ci_char p s) s))"

text \<open>What follows the longest run of \<open>=\<close> and whitespace: the class \<open>[=\s]\<close>, greedy.\<close>

function eq_spaces :: "string \<Rightarrow> string" where
  "eq_spaces s =
     (if s \<noteq> [] \<and> hd s = CHR ''='' then eq_spaces (tl s)
      else if space_len s \<noteq> 0 then eq_spaces (drop (space_len s) s)
      else s)"
  by pat_completeness auto
termination
proof (relation "measure length", goal_cases)
  case 1
  show ?case by simp
next
  case (2 s)
  then show ?case by (cases s) simp_all
next
  case (3 s)
  then have "s \<noteq> []" by (auto simp: space_len_def)
  with 3 show ?case by simp
qed

declare eq_spaces.simps [simp del]

text \<open>\<open>frame[=\s]+(\d+)\s+\<close> at the head of a text: group 1 and what follows the match.\<close>

definition match_frame :: "string \<Rightarrow> (string \<times> string) option" where
  "match_frame s =
     (case ci_literal ''frame'' s of
        None \<Rightarrow> None
      | Some r1 \<Rightarrow>
          (let r2 = eq_spaces r1;
               g1 = takeWhile digit r2;
               r3 = dropWhile digit r2;
               r4 = lstrip r3
           in if length r2 < length r1 \<and> g1 \<noteq> [] \<and> length r4 < length r3
              then Some (g1, r4) else None))"

fun search_frame :: "string \<Rightarrow> (string \<times> string) option" where
  "search_frame [] = match_frame []"
| "search_frame (c # cs) =
     (case match_frame (c # cs) of
        Some r \<Rightarrow> Some r
      | None \<Rightarrow> search_frame cs)"

text \<open>\<open>time[=\s]+(\d{2}):(\d{2}):(\d{2})\.(\d+)\<close> at the head of a text, and its first
  match on the rest of the line (\<open>.*?\<close> does not pass a line feed).\<close>

definition two_digits :: "char \<Rightarrow> string \<Rightarrow> (string \<times> string) option" where
  "two_digits sep s =
     (case s of
        a # b # c # r \<Rightarrow> if digit a \<and> digit b \<and> c = sep then Some ([a, b], r) else None
      | _ \<Rightarrow> None)"

definition match_time :: "string \<Rightarrow> ((string \<times> string \<times> string \<times> string) \<times> string) option" where
  "match_time s =
     (case ci_literal ''time'' s of
        None \<Rightarrow> None
      | Some r1 \<Rightarrow>
          (let r2 = eq_spaces r1 in
           if length r2 < length r1 then
             (case two_digits (CHR '':'') r2 of
                None \<Rightarrow> None
              | Some (g2, r3) \<Rightarrow>
                  (case two_digits (CHR '':'') r3 of
                     None \<Rightarrow> None
                   | Some (g3, r4) \<Rightarrow>
                       (case two_digits (CHR ''.'') r4 of
                          None \<Rightarrow> None
                        | Some (g4, r5) \<Rightarrow>
                            if takeWhile digit r5 \<noteq> []
                            then Some ((g2, g3, g4, takeWhile digit r5), dropWhile digit r5)
                            else None)))
           else None))"

fun find_time :: "string \<Rightarrow> ((string \<times> string \<times> string \<times> string) \<times> string) option" where
  "find_time [] = match_time []"
| "find_time (c # cs) =
     (case match_time (c # cs) of
        Some r \<Rightarrow> Some r
      | None \<Rightarrow> if c = newline then None else find_time cs)"

text \<open>\<open>speed[=\s]+(\d+\.\d+)x\<close> in the same way.\<close>

definition match_speed :: "string \<Rightarrow> string option" where
  "match_speed s =
     (case ci_literal ''speed'' s of
        None \<Rightarrow> None
      | Some r1 \<Rightarrow>
          (let r2 = eq_spaces r1;
               whole = takeWhile digit r2;
               r3 = dropWhile digit r2;
               frac = takeWhile digit (drop 1 r3);
               r4 = dropWhile digit (drop 1 r3)
           in if length r2 < length r1 \<and> whole \<noteq> [] \<and> take 1 r3 = ''.'' \<and> frac \<noteq> [] \<and>
                 (take 1 r4 = ''x'' \<or> take 1 r4 = ''X'')
              then Some (whole @ ''.'' @ frac) else None))"

fun find_speed :: "string \<Rightarrow> string option" where
  "find_speed [] = match_speed []"
| "find_speed (c # cs) =
     (case match_speed (c # cs) of
        Some g \<Rightarrow> Some g
      | None \<Rightarrow> if c = newline then None else find_speed cs)"

text \<open>The groups of a match: group 1, groups 2 to 5 (all four or none), group 6.\<close>

record groups =
  frame_group :: string
  time_groups :: "(string \<times> string \<times> string \<times> string) option"
  speed_group :: "string option"

definition PROGRESS_RE_search :: "string \<Rightarrow> groups option" where
  "PROGRESS_RE_search got =
     (case search_frame got of
        None \<Rightarrow> None
      | Some (g1, r) \<Rightarrow>
          (case find_time r of
             None \<Rightarrow> Some \<lparr>frame_group = g1, time_groups = None, speed_group = find_speed r\<rparr>
           | Some (t, r') \<Rightarrow>
               Some \<lparr>frame_group = g1, time_groups = Some t, speed_group = find_speed r'\<rparr>))"

text \<open>\<open>re.search(r"Last message repeated (\d+) times", line)\<close> and \<open>int\<close> of its group.\<close>

definition repeat_at :: "string \<Rightarrow> nat option" where
  "repeat_at s =
     (if startswith s ''Last message repeated '' then
        (let r = drop (length ''Last message repeated '') s in
         if takeWhile digit r \<noteq> [] \<and> startswith (dropWhile digit r) '' times''
         then Some (int_of_digits (takeWhile digit r)) else None)
      else None)"

fun repeat_search :: "string \<Rightarrow> nat option" where
  "repeat_search [] = repeat_at []"
| "repeat_search (c # cs) =
     (case repeat_at (c # cs) of
        Some n \<Rightarrow> Some n
      | None \<Rightarrow> repeat_search cs)"

section \<open>Runs and videos\<close>

text \<open>
  Modelled from the spec: \<open>Models.py\<close>, with the classes behind \<open>vid.runs\<close>,
  \<open>vid.start_new_run()\<close> and \<open>Job\<close>, is not among the sources. A run is one attempt: its
  captured log lines, its exit code (\<open>None\<close> until the attempt ends), the description of its
  strategy and its command line. A video holds its runs in order; \<open>start_new_run\<close> pushes
  a fresh one. The field \<open>return_code\<close> of a run is written \<open>run_return_code\<close>, the
  monitor has a field of that name too.
\<close>

record Run =
  texts :: "string list"
  run_return_code :: "int option"
  descr :: string
  command :: "string list"

record Vid =
  runs :: "Run list"

definition start_new_run :: "Vid \<Rightarrow> Vid" where
  "start_new_run v =
     v\<lparr>runs := runs v @ [\<lparr>texts = [], run_return_code = None, descr = [], command = []\<rparr>]\<rparr>"

text \<open>\<open>vid.runs[-1]\<close> raises \<open>IndexError\<close> on a video without runs, for a read and for an
  assignment alike.\<close>

definition last_run :: "Vid \<Rightarrow> error + Run" where
  "last_run v = (if runs v = [] then Inl IndexError else Inr (last (runs v)))"

definition update_last_run :: "(Run \<Rightarrow> Run) \<Rightarrow> Vid \<Rightarrow> error + Vid" where
  "update_last_run f v =
     (if runs v = [] then Inl IndexError
      else Inr (v\<lparr>runs := butlast (runs v) @ [f (last (runs v))]\<rparr>))"

definition append_text :: "string \<Rightarrow> Run \<Rightarrow> Run" where
  "append_text t r = r\<lparr>texts := texts r @ [t]\<rparr>"

section \<open>The failure classifier\<close>

text \<open>The first entry of a table, in the order of the dict, whose signal is in the line:
  the inner \<open>for\<close> loop with its \<open>break\<close>.\<close>

fun first_signal :: "(string \<times> nat) list \<Rightarrow> string \<Rightarrow> nat option" where
  "first_signal [] line = None"
| "first_signal ((signal, score) # table) line =
     (if contains line signal then Some score else first_signal table line)"

definition filter_error_signals :: "string list" where
  "filter_error_signals =
     [''Error reinitializing filters'',
      ''Impossible to convert between the formats'',
      ''Reconfiguring filter graph because video parameters changed'']"

definition corruption_signals :: "(string \<times> nat) list" where
  "corruption_signals =
     [(''corrupt decoded frame'', 10),
      (''illegal mb_num'', 9),
      (''marker does not match f_code'', 9)]"

text \<open>The second loop of \<open>_should_retry_with_error_tolerance\<close>, with its return from
  inside the loop.\<close>

fun severity_scan :: "nat \<Rightarrow> string list \<Rightarrow> bool" where
  "severity_scan total_severity [] = False"
| "severity_scan total_severity (line # lines) =
     (case first_signal corruption_signals line of
        None \<Rightarrow> severity_scan total_severity lines
      | Some score \<Rightarrow>
          if total_severity + score \<ge> 20 then True
          else severity_scan (total_severity + score) lines)"

definition should_retry_with_error_tolerance :: "Vid \<Rightarrow> error + bool" where
  "should_retry_with_error_tolerance v =
     (case last_run v of
        Inl e \<Rightarrow> Inl e
      | Inr r \<Rightarrow>
          if run_return_code r = Some 0 then Inr False
          else if list_ex (\<lambda>signal. list_ex (\<lambda>line. contains line signal) (texts r))
                    filter_error_signals
          then Inr True
          else Inr (severity_scan 0 (texts r)))"

definition filter_reconfig_signals :: "string list" where
  "filter_reconfig_signals =
     [''Error reinitializing filters'',
      ''Impossible to convert between the formats'']"

definition should_retry_with_software :: "Vid \<Rightarrow> error + bool" where
  "should_retry_with_software v =
     (case last_run v of
        Inl e \<Rightarrow> Inl e
      | Inr r \<Rightarrow>
          if run_return_code r = Some 0 then Inr False
          else Inr (list_ex (\<lambda>signal. list_ex (\<lambda>line. contains line signal) (texts r))
                      filter_reconfig_signals))"

subsection \<open>Corruption severity (\<open>elaborate_err\<close> of \<open>finish_transcode_job\<close>)\<close>

definition CORRUPTION_SEVERITY :: "(string \<times> nat) list" where
  "CORRUPTION_SEVERITY =
     [(''corrupt decoded frame'', 10),
      (''illegal mb_num'', 9),
      (''marker does not match f_code'', 9),
      (''damaged at'', 8),
      (''Error at MB:'', 7),
      (''time_increment_bits'', 6),
      (''slice end not reached'', 5),
      (''concealing'', 2)]"

definition SEVERITY_THRESHOLD :: nat where
  "SEVERITY_THRESHOLD = 30"

text \<open>One pass of the loop over the lines: the signal, then the repeat.\<close>

record score =
  total_severity :: nat
  corruption_events :: nat
  last_score :: nat

definition score_line :: "score \<Rightarrow> string \<Rightarrow> score" where
  "score_line sc line =
     (let hit = first_signal CORRUPTION_SEVERITY line;
          sc1 = (case hit of
                   None \<Rightarrow> sc
                 | Some s \<Rightarrow> sc\<lparr>total_severity := total_severity sc + s,
                                 corruption_events := corruption_events sc + 1\<rparr>);
          this_line_signal_score = (case hit of None \<Rightarrow> 0 | Some s \<Rightarrow> s)
      in (case repeat_search line of
            None \<Rightarrow> sc1\<lparr>last_score := this_line_signal_score\<rparr>
          | Some multiplier \<Rightarrow>
              sc1\<lparr>total_severity := total_severity sc1 + last_score sc * multiplier,
                  corruption_events :=
                    (if last_score sc > 0 then corruption_events sc1 + multiplier
                     else corruption_events sc1),
                  last_score := 0\<rparr>))"

definition score_lines :: "string list \<Rightarrow> score" where
  "score_lines lines =
     foldl score_line \<lparr>total_severity = 0, corruption_events = 0, last_score = 0\<rparr> lines"

text \<open>\<open>str\<close> of a number that is not negative, as the f-string writes it.\<close>

definition digit_char :: "nat \<Rightarrow> char" where
  "digit_char n = ''0123456789'' ! n"

fun show_nat :: "nat \<Rightarrow> string" where
  "show_nat n = (if n < 10 then [digit_char n] else show_nat (n div 10) @ [digit_char (n mod 10)])"

declare show_nat.simps [simp del]

text \<open>
  The marker ends in \<open>vid.return_code\<close>, an attribute of a class that is not among the
  sources; \<open>code_text\<close> stands for its text.
\<close>

definition corrupt_marker :: "score \<Rightarrow> string \<Rightarrow> string" where
  "corrupt_marker sc code_text =
     ''CORRUPT VIDEO: Total Severity Score '' @ show_nat (total_severity sc) @
     '' from '' @ show_nat (corruption_events sc) @
     '' events. FFmpeg error_code='' @ code_text"

definition elaborate_err :: "string \<Rightarrow> Vid \<Rightarrow> error + Vid" where
  "elaborate_err code_text v =
     (case last_run v of
        Inl e \<Rightarrow> Inl e
      | Inr r \<Rightarrow>
          if run_return_code r \<noteq> Some 0 then
            (let sc = score_lines (texts r) in
             if total_severity sc \<ge> SEVERITY_THRESHOLD
             then update_last_run (append_text (corrupt_marker sc code_text)) v
             else Inr v)
          else Inr v)"

text \<open>A failed run with three corrupt frames and a repeat of two.\<close>

definition corrupt_run :: "int \<Rightarrow> Vid" where
  "corrupt_run rc =
     \<lparr>runs = [\<lparr>texts = [''corrupt decoded frame'', ''corrupt decoded frame'',
                         ''corrupt decoded frame'', ''Last message repeated 2 times''],
               run_return_code = Some rc, descr = ''initial run'', command = []\<rparr>]\<rparr>"

lemma corrupt_run_score:
  "score_lines [''corrupt decoded frame'', ''corrupt decoded frame'',
                ''corrupt decoded frame'', ''Last message repeated 2 times'']
   = \<lparr>total_severity = 50, corruption_events = 5, last_score = 0\<rparr>"
  by code_simp

lemma show_nat_50: "show_nat 50 = ''50''"
  by code_simp

lemma show_nat_5: "show_nat 5 = ''5''"
  by code_simp

text \<open>
  On that run the score is 50, and the events counted are five, not six: one for each
  of the three lines and two for the repeat.
\<close>

theorem corrupt_run_events_counterexample:
  "total_severity (score_lines (texts (last (runs (corrupt_run 1))))) = 50 \<and>
   corruption_events (score_lines (texts (last (runs (corrupt_run 1))))) = 5 \<and>
   corruption_events (score_lines (texts (last (runs (corrupt_run 1))))) \<noteq> 6"
  by (simp add: corrupt_run_def corrupt_run_score)

text \<open>
  C4 (amended). For a run with a non-zero exit code and the lines \<open>corrupt decoded frame\<close>
  three times and then \<open>Last message repeated 2 times\<close>, the severity is 10+10+10+20 = 50,
  the corruption events are 5, the threshold 30 is reached, and the marker
  \<open>CORRUPT VIDEO: Total Severity Score 50 from 5 events. FFmpeg error_code=\<close>\<dots> is
  appended to the run's text.
\<close>

theorem corrupt_run_marked:
  assumes "rc \<noteq> 0"
  shows "score_lines (texts (last (runs (corrupt_run rc)))) =
           \<lparr>total_severity = 50, corruption_events = 5, last_score = 0\<rparr> \<and>
         SEVERITY_THRESHOLD \<le> total_severity (score_lines (texts (last (runs (corrupt_run rc))))) \<and>
         elaborate_err code_text (corrupt_run rc) =
           Inr \<lparr>runs = [\<lparr>texts = [''corrupt decoded frame'', ''corrupt decoded frame'',
                         ''corrupt decoded frame'', ''Last message repeated 2 times'',
                         ''CORRUPT VIDEO: Total Severity Score 50 from 5 events. FFmpeg error_code=''
                           @ code_text],
               run_return_code = Some rc, descr = ''initial run'', command = []\<rparr>]\<rparr>"
  using assms
  by (simp add: corrupt_run_def corrupt_run_score elaborate_err_def last_run_def
      update_last_run_def append_text_def corrupt_marker_def SEVERITY_THRESHOLD_def
      show_nat_50 show_nat_5)

theorem corrupt_run_marked_witness:
  "(1::int) \<noteq> 0 \<and>
   elaborate_err ''1'' (corrupt_run 1) =
           Inr \<lparr>runs = [\<lparr>texts = [''corrupt decoded frame'', ''corrupt decoded frame'',
                         ''corrupt decoded frame'', ''Last message repeated 2 times'',
                         ''CORRUPT VIDEO: Total Severity Score 50 from 5 events. FFmpeg error_code=1''],
               run_return_code = Some 1, descr = ''initial run'', command = []\<rparr>]\<rparr>"
  using corrupt_run_marked [of 1 "''1''"] by simp

subsection \<open>When a tolerant retry is signalled\<close>

text \<open>The sum, over the lines, of the weight of the first of the three signals of
  \<open>corruption_signals\<close> that the line holds.\<close>

definition high_severity :: "string list \<Rightarrow> nat" where
  "high_severity lines =
     sum_list (map (\<lambda>line. case first_signal corruption_signals line of
                              None \<Rightarrow> 0 | Some score \<Rightarrow> score) lines)"

lemma severity_scan_sum:
  "acc < 20 \<Longrightarrow> severity_scan acc lines = (20 \<le> acc + high_severity lines)"
proof (induction lines arbitrary: acc)
  case Nil
  then show ?case by (simp add: high_severity_def)
next
  case (Cons line lines)
  show ?case
  proof (cases "first_signal corruption_signals line")
    case None
    with Cons show ?thesis by (simp add: high_severity_def)
  next
    case (Some score)
    show ?thesis
    proof (cases "20 \<le> acc + score")
      case True
      with Some show ?thesis by (simp add: high_severity_def)
    next
      case False
      then have "acc + score < 20" by simp
      then have "severity_scan (acc + score) lines = (20 \<le> acc + score + high_severity lines)"
        by (rule Cons.IH)
      with Some False show ?thesis by (simp add: high_severity_def add.assoc)
    qed
  qed
qed

definition filter_error_seen :: "string list \<Rightarrow> bool" where
  "filter_error_seen lines =
     (\<exists>signal \<in> set filter_error_signals. \<exists>line \<in> set lines. contains line signal)"

text \<open>
  C8 (amended). \<open>_should_retry_with_error_tolerance\<close> returns \<open>True\<close> exactly when the exit
  code of the last run is not 0 and either some captured line holds one of the three
  filter messages, or the weights of \<open>corrupt decoded frame\<close> (10), \<open>illegal mb_num\<close> (9)
  and \<open>marker does not match f_code\<close> (9), one per line for the first of them the line
  holds, add up to 20 or more. The five lighter signals of the severity table and
  repeat lines play no part. A run with exit code 0 is never eligible.
\<close>

theorem tolerant_retry_signal:
  "should_retry_with_error_tolerance v =
     (if runs v = [] then Inl IndexError
      else Inr (run_return_code (last (runs v)) \<noteq> Some 0 \<and>
                (filter_error_seen (texts (last (runs v))) \<or>
                 20 \<le> high_severity (texts (last (runs v))))))"
  by (simp add: should_retry_with_error_tolerance_def last_run_def filter_error_seen_def
      list_ex_iff severity_scan_sum)

text \<open>
  A failed run whose only signal is one of the lighter ones, repeated twice: the
  severity table gives 8 + 16 = 24, yet no tolerant retry is signalled.
\<close>

definition damaged_run :: Vid where
  "damaged_run =
     \<lparr>runs = [\<lparr>texts = [''damaged at 0 12'', ''Last message repeated 2 times''],
               run_return_code = Some 1, descr = ''initial run'', command = []\<rparr>]\<rparr>"

theorem tolerant_retry_full_table_counterexample:
  "should_retry_with_error_tolerance damaged_run = Inr False \<and>
   run_return_code (last (runs damaged_run)) \<noteq> Some 0 \<and>
   total_severity (score_lines (texts (last (runs damaged_run)))) = 24"
  by code_simp

lemma high_severity_two_frames:
  "high_severity [''corrupt decoded frame'', ''corrupt decoded frame''] = 20"
  by code_simp

lemma high_severity_damaged: "high_severity (texts (last (runs damaged_run))) = 0"
  by code_simp

lemma no_filter_error_damaged: "\<not> filter_error_seen (texts (last (runs damaged_run)))"
  by (simp add: filter_error_seen_def damaged_run_def filter_error_signals_def)

theorem tolerant_retry_signal_witness:
  "should_retry_with_error_tolerance damaged_run = Inr False \<and>
   should_retry_with_error_tolerance
     \<lparr>runs = [\<lparr>texts = [''corrupt decoded frame'', ''corrupt decoded frame''],
               run_return_code = Some 1, descr = [], command = []\<rparr>]\<rparr> = Inr True \<and>
   should_retry_with_error_tolerance
     \<lparr>runs = [\<lparr>texts = [''corrupt decoded frame'', ''corrupt decoded frame''],
               run_return_code = Some 0, descr = [], command = []\<rparr>]\<rparr> = Inr False"
  using tolerant_retry_signal [of damaged_run]
    tolerant_retry_signal [of "\<lparr>runs = [\<lparr>texts = [''corrupt decoded frame'', ''corrupt decoded frame''],
               run_return_code = Some 1, descr = [], command = []\<rparr>]\<rparr>"]
    tolerant_retry_signal [of "\<lparr>runs = [\<lparr>texts = [''corrupt decoded frame'', ''corrupt decoded frame''],
               run_return_code = Some 0, descr = [], command = []\<rparr>]\<rparr>"]
  by (simp add: high_severity_two_frames high_severity_damaged no_filter_error_damaged)
     (simp add: damaged_run_def)
section \<open>The progress interpreter (\<open>get_job_progress\<close>)\<close>

text \<open>The two clocks of the handler. Floats are taken as real numbers throughout.\<close>

record JobHandler =
  progress_line_mono :: real
  prev_ffmpeg_out_mono :: real

text \<open>
  Modelled from the spec: \<open>Job\<close> of \<open>Models.py\<close> is not among the sources. A job has its
  video, the two flags of the tier that produced it, its monitor, the instant it
  started, the target duration in seconds and the name of its temp file.
\<close>

record Job =
  vid :: Vid
  is_retry :: bool
  is_software_fallback :: bool
  ffsubproc :: FfmpegMon
  start_mono :: real
  duration_secs :: real
  job_temp_file :: string

text \<open>
  What one call of \<open>get_job_progress\<close> finds outside: the stall threshold
  \<open>opts.progress_secs_max\<close>, the clock at entry, for the \<open>k\<close>-th call of \<open>poll\<close> what the read
  and the child's status give and what \<open>time.monotonic()\<close> gives after it, and what a
  \<open>stop\<close> would find.
\<close>

record observation =
  read_result :: "bytes option"
  child_status :: "int option"
  clock :: real

record env =
  progress_secs_max :: real
  entry_clock :: real
  seen :: "nat \<Rightarrow> observation"
  stop_alive :: bool
  stop_graceful :: bool
  path_exists :: "string \<Rightarrow> bool"

text \<open>
  \<open>get_job_progress\<close> returns \<open>None\<close>, a text or an \<open>int\<close>. The text is built from five
  numbers; the model returns the numbers, \<open>remaining_seconds = None\<close> standing for
  \<open>N/A\<close>. How they are written out (\<open>int\<close>, \<open>round\<close>, \<open>timedelta\<close>, \<open>Job.trim0\<close>,
  \<open>Job.total_duration_formatted\<close> and the format \<open>.1f\<close>) is not modelled.
\<close>

record update =
  percent_complete :: real
  elapsed_real :: real
  remaining_seconds :: "real option"
  avg_speed :: real
  time_encoded_seconds :: real

datatype got = NoUpdate | Update update | Terminal int

text \<open>The seconds of groups 2 to 5; the last group is a decimal fraction of its own length.\<close>

definition time_encoded :: "string \<times> string \<times> string \<times> string \<Rightarrow> real" where
  "time_encoded t =
     (case t of (h, m, s, f_str) \<Rightarrow>
        real (int_of_digits h * 3600 + int_of_digits m * 60 + int_of_digits s) +
        real (int_of_digits f_str) / 10 ^ length f_str)"

definition render :: "real \<Rightarrow> Job \<Rightarrow> real \<Rightarrow> update" where
  "render now_mono job encoded =
     (let elapsed = now_mono - start_mono job;
          speed = (if elapsed > 0.5 \<and> encoded > 0 then encoded / elapsed else 0)
      in if duration_secs job > 0 \<and> speed > 0 then
           \<lparr>percent_complete = encoded / duration_secs job * 100,
            elapsed_real = elapsed,
            remaining_seconds = Some ((duration_secs job - encoded) / speed),
            avg_speed = speed,
            time_encoded_seconds = encoded\<rparr>
         else
           \<lparr>percent_complete = 0,
            elapsed_real = elapsed,
            remaining_seconds = None,
            avg_speed = speed,
            time_encoded_seconds = encoded\<rparr>)"

text \<open>The first loop: while more than one event is queued, take one and file it.\<close>

function drain_backlog :: "env \<Rightarrow> nat \<Rightarrow> JobHandler \<Rightarrow> Job
    \<Rightarrow> error + (int option \<times> nat \<times> JobHandler \<times> Job)" where
  "drain_backlog e k h job =
     (if length (output_queue (ffsubproc job)) > 1 then
        (case poll (read_result (seen e k)) (child_status (seen e k)) (ffsubproc job) of
           (Line discarded, m) \<Rightarrow>
             (if \<not> startswith discarded ''PROGRESS:'' then
                (case update_last_run (append_text discarded) (vid job) of
                   Inl err \<Rightarrow> Inl err
                 | Inr v \<Rightarrow>
                     drain_backlog e (Suc k) (h\<lparr>prev_ffmpeg_out_mono := entry_clock e\<rparr>)
                       (job\<lparr>ffsubproc := m, vid := v\<rparr>))
              else
                drain_backlog e (Suc k) (h\<lparr>prev_ffmpeg_out_mono := entry_clock e\<rparr>)
                  (job\<lparr>ffsubproc := m\<rparr>))
         | (ExitCode discarded, m) \<Rightarrow>
             (case update_last_run (\<lambda>r. r\<lparr>run_return_code := Some discarded\<rparr>) (vid job) of
                Inl err \<Rightarrow> Inl err
              | Inr v \<Rightarrow> Inr (Some discarded, Suc k, h, job\<lparr>ffsubproc := m, vid := v\<rparr>))
         | (NoEvent, m) \<Rightarrow> drain_backlog e (Suc k) h (job\<lparr>ffsubproc := m\<rparr>))
      else Inr (None, k, h, job))"
  by pat_completeness auto
termination
  by (relation "measure (\<lambda>(e, k, h, job). length (output_queue (ffsubproc job)))")
     (auto simp: poll_def split: list.splits)

declare drain_backlog.simps [simp del]

text \<open>
  The second loop. It goes round again only after a progress line that left the queue
  non-empty, so each further \<open>poll\<close> takes from the queue. A match without the time
  groups makes \<open>int(None)\<close> raise \<open>TypeError\<close>, which the code catches and answers with
  \<open>None\<close>.
\<close>

function monitor :: "env \<Rightarrow> nat \<Rightarrow> JobHandler \<Rightarrow> Job
    \<Rightarrow> error + (got \<times> effect list \<times> JobHandler \<times> Job)" where
  "monitor e k h job =
     (case poll (read_result (seen e k)) (child_status (seen e k)) (ffsubproc job) of
        (ExitCode c, m) \<Rightarrow>
          (case update_last_run (\<lambda>r. r\<lparr>run_return_code := Some c\<rparr>) (vid job) of
             Inl err \<Rightarrow> Inl err
           | Inr v \<Rightarrow> Inr (Terminal c, [], h, job\<lparr>ffsubproc := m, vid := v\<rparr>))
      | (Line line, m) \<Rightarrow>
          (if output_queue m \<noteq> [] \<and> startswith line ''PROGRESS:'' then
             monitor e (Suc k) (h\<lparr>prev_ffmpeg_out_mono := clock (seen e k)\<rparr>)
               (job\<lparr>ffsubproc := m\<rparr>)
           else
             (case PROGRESS_RE_search line of
                None \<Rightarrow>
                  (if \<not> startswith line ''PROGRESS:'' then
                     (case update_last_run (append_text line) (vid job) of
                        Inl err \<Rightarrow> Inl err
                      | Inr v \<Rightarrow>
                          Inr (NoUpdate, [], h\<lparr>prev_ffmpeg_out_mono := clock (seen e k)\<rparr>,
                               job\<lparr>ffsubproc := m, vid := v\<rparr>))
                   else
                     Inr (NoUpdate, [], h\<lparr>prev_ffmpeg_out_mono := clock (seen e k)\<rparr>,
                          job\<lparr>ffsubproc := m\<rparr>))
              | Some groups \<Rightarrow>
                  (if clock (seen e k) - progress_line_mono h < 1.8 then
                     Inr (NoUpdate, [], h\<lparr>prev_ffmpeg_out_mono := clock (seen e k)\<rparr>,
                          job\<lparr>ffsubproc := m\<rparr>)
                   else
                     (case time_groups groups of
                        None \<Rightarrow>
                          Inr (NoUpdate, [],
                               h\<lparr>prev_ffmpeg_out_mono := clock (seen e k),
                                 progress_line_mono := clock (seen e k)\<rparr>,
                               job\<lparr>ffsubproc := m\<rparr>)
                      | Some t \<Rightarrow>
                          Inr (Update (render (clock (seen e k)) job (time_encoded t)), [],
                               h\<lparr>prev_ffmpeg_out_mono := clock (seen e k),
                                 progress_line_mono := clock (seen e k)\<rparr>,
                               job\<lparr>ffsubproc := m\<rparr>)))))
      | (NoEvent, m) \<Rightarrow>
          (if clock (seen e k) - prev_ffmpeg_out_mono h > progress_secs_max e then
             (case update_last_run (append_text ''PROGRESS TIMEOUT'') (vid job) of
                Inl err \<Rightarrow> Inl err
              | Inr v \<Rightarrow>
                  Inr (Terminal 254,
                       fst (stop (stop_alive e) (stop_graceful e) (path_exists e) 254 m),
                       h\<lparr>prev_ffmpeg_out_mono := clock (seen e k) + 1000000\<rparr>,
                       job\<lparr>ffsubproc :=
                             snd (stop (stop_alive e) (stop_graceful e) (path_exists e) 254 m),
                           vid := v\<rparr>))
           else Inr (NoUpdate, [], h, job\<lparr>ffsubproc := m\<rparr>)))"
  by pat_completeness auto
termination
  by (relation "measures [\<lambda>(e, k, h, job). if output_queue (ffsubproc job) = [] then 1 else 0,
                          \<lambda>(e, k, h, job). length (output_queue (ffsubproc job))]")
     (auto simp: poll_def Let_def polled_of_code_def split: list.splits option.splits)

declare monitor.simps [simp del]

definition get_job_progress :: "env \<Rightarrow> JobHandler \<Rightarrow> Job
    \<Rightarrow> error + (got \<times> effect list \<times> JobHandler \<times> Job)" where
  "get_job_progress e h job =
     (case drain_backlog e 0 h job of
        Inl err \<Rightarrow> Inl err
      | Inr (Some c, k, h1, job1) \<Rightarrow> Inr (Terminal c, [], h1, job1)
      | Inr (None, k, h1, job1) \<Rightarrow> monitor e k h1 job1)"
section \<open>The retry ladder (\<open>check_job_status\<close>)\<close>

text \<open>
  What \<open>start_transcode_job\<close> gets from its collaborators: the command line that the
  chooser builds, the name of the temp file, the duration from the probe (or the sample
  length), what the launch does, and two readings of the clock.
\<close>

record launch_env =
  ffmpeg_cmd :: "string list"
  temp_name :: string
  probe_duration :: real
  launch_outcome :: launch
  job_clock :: real
  launch_clock :: real

text \<open>
  The part of \<open>start_transcode_job\<close> that the ladder rests on: the runs are reset at a
  first attempt only, a new run is pushed and described, the job carries the two
  arguments as its flags, and its monitor, fresh, is started. The run keeps the command
  line as a list (\<open>bash_quote\<close> is not among the sources).
\<close>

definition start_transcode_job :: "launch_env \<Rightarrow> bool \<Rightarrow> bool \<Rightarrow> JobHandler \<Rightarrow> Vid
    \<Rightarrow> error + (JobHandler \<times> Job)" where
  "start_transcode_job le retry_with_error_tolerance force_software h v =
     (let v1 = (if \<not> retry_with_error_tolerance \<and> \<not> force_software then v\<lparr>runs := []\<rparr> else v);
          v2 = start_new_run v1;
          d = (if retry_with_error_tolerance \<and> \<not> force_software then ''redo w err tolerance''
               else if force_software then ''retry w S/W convert''
               else ''initial run'')
      in (case update_last_run (\<lambda>r. r\<lparr>descr := d, command := ffmpeg_cmd le\<rparr>) v2 of
            Inl err \<Rightarrow> Inl err
          | Inr v3 \<Rightarrow>
              (case start (launch_outcome le) (ffmpeg_cmd le) (Some (temp_name le)) FfmpegMon_init of
                 (Inl err, m) \<Rightarrow> Inl err
               | (Inr u, m) \<Rightarrow>
                   Inr (h\<lparr>prev_ffmpeg_out_mono := launch_clock le,
                          progress_line_mono := launch_clock le\<rparr>,
                        \<lparr>vid = v3, is_retry = retry_with_error_tolerance,
                         is_software_fallback = force_software, ffsubproc = m,
                         start_mono = job_clock le, duration_secs = probe_duration le,
                         job_temp_file = temp_name le\<rparr>))))"

text \<open>
  \<open>check_job_status\<close> returns the job to poll next, a report and whether the video is
  done; the model returns in addition what was done to the outside, the handler and the
  video.
\<close>

datatype report = Progress got | Status string

record outcome =
  next_job :: "Job option"
  report_text :: report
  is_done :: bool

definition final_status :: "int \<Rightarrow> Job \<Rightarrow> string" where
  "final_status code job =
     (if code = 0 then
        (if is_software_fallback job then ''OK3'' else if is_retry job then ''OK2'' else '' OK'')
      else ''ERR'')"

definition check_job_status :: "env \<Rightarrow> launch_env \<Rightarrow> JobHandler \<Rightarrow> Job
    \<Rightarrow> error + (outcome \<times> effect list \<times> JobHandler \<times> Vid)" where
  "check_job_status e le h job0 =
     (case get_job_progress e h job0 of
        Inl err \<Rightarrow> Inl err
      | Inr (got, effects, h1, job) \<Rightarrow>
          (case got of
             Terminal code \<Rightarrow>
               (case update_last_run (\<lambda>r. r\<lparr>run_return_code := Some code\<rparr>) (vid job) of
                  Inl err \<Rightarrow> Inl err
                | Inr v \<Rightarrow>
                    (case (if code \<noteq> 0 \<and> \<not> is_retry job \<and> \<not> is_software_fallback job
                           then should_retry_with_error_tolerance v else Inr False) of
                       Inl err \<Rightarrow> Inl err
                     | Inr True \<Rightarrow>
                         (case start_transcode_job le True False h1 v of
                            Inl err \<Rightarrow> Inl err
                          | Inr (h2, new_job) \<Rightarrow>
                              Inr (\<lparr>next_job = Some new_job,
                                    report_text = Status ''RETRYING (Tolerant)...'',
                                    is_done = False\<rparr>, effects, h2, vid new_job))
                     | Inr False \<Rightarrow>
                         (case (if code \<noteq> 0 \<and> is_retry job \<and> \<not> is_software_fallback job
                                then should_retry_with_software v else Inr False) of
                            Inl err \<Rightarrow> Inl err
                          | Inr True \<Rightarrow>
                              (case start_transcode_job le True True h1 v of
                                 Inl err \<Rightarrow> Inl err
                               | Inr (h2, new_job) \<Rightarrow>
                                   Inr (\<lparr>next_job = Some new_job,
                                         report_text = Status ''RETRYING (Software)...'',
                                         is_done = False\<rparr>, effects, h2, vid new_job))
                          | Inr False \<Rightarrow>
                              Inr (\<lparr>next_job = None,
                                    report_text = Status (final_status code job),
                                    is_done = True\<rparr>, effects, h1, v))))
           | _ \<Rightarrow>
               Inr (\<lparr>next_job = Some job, report_text = Progress got, is_done = False\<rparr>,
                    effects, h1, vid job)))"

text \<open>The retry that a call started, if it started one: the report and the flags of the
  new job.\<close>

definition retry_started :: "error + (outcome \<times> effect list \<times> JobHandler \<times> Vid)
    \<Rightarrow> (string \<times> bool \<times> bool) option" where
  "retry_started res =
     (case res of
        Inl err \<Rightarrow> None
      | Inr (out, effects, h, v) \<Rightarrow>
          (case next_job out of
             None \<Rightarrow> None
           | Some job' \<Rightarrow>
               (case report_text out of
                  Status s \<Rightarrow> Some (s, is_retry job', is_software_fallback job')
                | Progress g \<Rightarrow> None)))"

text \<open>
  The caller's loop: call \<open>check_job_status\<close>, go on with the job it returns, stop when it
  returns none. \<open>ladder\<close> is the list of the retries started on the way, whatever the
  calls find outside.
\<close>

fun ladder :: "(env \<times> launch_env) list \<Rightarrow> JobHandler \<Rightarrow> Job \<Rightarrow> (string \<times> bool \<times> bool) list" where
  "ladder [] h job = []"
| "ladder (step # steps) h job =
     (case check_job_status (fst step) (snd step) h job of
        Inl err \<Rightarrow> []
      | Inr (out, effects, h', v) \<Rightarrow>
          (case next_job out of
             None \<Rightarrow> []
           | Some job' \<Rightarrow>
               (case retry_started (check_job_status (fst step) (snd step) h job) of
                  Some r \<Rightarrow> r # ladder steps h' job'
                | None \<Rightarrow> ladder steps h' job')))"

section \<open>A job to try things on\<close>

text \<open>
  What the first \<open>start_transcode_job\<close> gets and the job it leaves, a handler at time 0,
  and an outside in which every read gives the same bytes and the same status.
\<close>

definition example_launch :: launch_env where
  "example_launch =
     \<lparr>ffmpeg_cmd = [''ffmpeg'', ''-i'', ''a.avi'', ''TEMP.a.mkv''], temp_name = ''TEMP.a.mkv'',
      probe_duration = 181, launch_outcome = Launched, job_clock = 0, launch_clock = 0\<rparr>"

definition example_env :: "bytes \<Rightarrow> int option \<Rightarrow> real \<Rightarrow> env" where
  "example_env chunk status t =
     \<lparr>progress_secs_max = 30, entry_clock = t,
      seen = (\<lambda>k. \<lparr>read_result = Some chunk, child_status = status, clock = t\<rparr>),
      stop_alive = True, stop_graceful = True, path_exists = (\<lambda>f. True)\<rparr>"

definition example_job :: Job where
  "example_job =
     \<lparr>vid = \<lparr>runs = [\<lparr>texts = [], run_return_code = None, descr = ''initial run'',
                       command = [''ffmpeg'', ''-i'', ''a.avi'', ''TEMP.a.mkv'']\<rparr>]\<rparr>,
      is_retry = False, is_software_fallback = False,
      ffsubproc = \<lparr>process = Some [''ffmpeg'', ''-i'', ''a.avi'', ''TEMP.a.mkv''],
                   partial_line = [], output_queue = [], return_code = None,
                   temp_file = Some ''TEMP.a.mkv'', progress_buffer = []\<rparr>,
      start_mono = 0, duration_secs = 181, job_temp_file = ''TEMP.a.mkv''\<rparr>"

definition example_steps :: "(env \<times> launch_env) list" where
  "example_steps =
     [(example_env (''Error reinitializing filters'' @ [newline]) (Some 1) 1, example_launch),
      (example_env [] (Some 1) 2, example_launch),
      (example_env (''Impossible to convert between the formats'' @ [newline]) (Some 1) 3, example_launch),
      (example_env [] (Some 1) 4, example_launch),
      (example_env (''Error reinitializing filters'' @ [newline]) (Some 1) 5, example_launch),
      (example_env [] (Some 1) 6, example_launch),
      (example_env [] (Some 1) 7, example_launch)]"

definition idle_handler :: JobHandler where
  "idle_handler = \<lparr>progress_line_mono = 0, prev_ffmpeg_out_mono = 0\<rparr>"

lemma example_job_started:
  "start_transcode_job example_launch False False
     idle_handler \<lparr>runs = []\<rparr>
   = Inr (idle_handler, example_job)"
  by (simp add: start_transcode_job_def example_launch_def example_job_def start_new_run_def
      update_last_run_def start_def FfmpegMon_init_def idle_handler_def)

section \<open>What the progress interpreter reports\<close>

subsection \<open>A rendered update\<close>

lemma drain_backlog_short:
  "length (output_queue (ffsubproc job)) \<le> 1 \<Longrightarrow> drain_backlog e k h job = Inr (None, k, h, job)"
  by (subst drain_backlog.simps) simp








subsection \<open>Stall\<close>

lemma poll_NoEvent_queue: "poll rd st m = (NoEvent, m') \<Longrightarrow> output_queue m = []"
  by (auto simp: poll_def split: list.splits)

lemma stall_result:
  assumes "poll (read_result (seen e 0)) (child_status (seen e 0)) (ffsubproc job) = (NoEvent, m)"
    and "clock (seen e 0) - prev_ffmpeg_out_mono h > progress_secs_max e"
    and "runs (vid job) \<noteq> []"
  shows "get_job_progress e h job =
     Inr (Terminal 254,
          fst (stop (stop_alive e) (stop_graceful e) (path_exists e) 254 m),
          h\<lparr>prev_ffmpeg_out_mono := clock (seen e 0) + 1000000\<rparr>,
          job\<lparr>ffsubproc := snd (stop (stop_alive e) (stop_graceful e) (path_exists e) 254 m),
              vid := (vid job)\<lparr>runs := butlast (runs (vid job)) @
                      [append_text ''PROGRESS TIMEOUT'' (last (runs (vid job)))]\<rparr>\<rparr>)"
proof -
  from assms(1) have "output_queue (ffsubproc job) = []" by (rule poll_NoEvent_queue)
  then have "drain_backlog e 0 h job = Inr (None, 0, h, job)"
    by (simp add: drain_backlog_short)
  moreover have "monitor e 0 h job =
     Inr (Terminal 254,
          fst (stop (stop_alive e) (stop_graceful e) (path_exists e) 254 m),
          h\<lparr>prev_ffmpeg_out_mono := clock (seen e 0) + 1000000\<rparr>,
          job\<lparr>ffsubproc := snd (stop (stop_alive e) (stop_graceful e) (path_exists e) 254 m),
              vid := (vid job)\<lparr>runs := butlast (runs (vid job)) @
                      [append_text ''PROGRESS TIMEOUT'' (last (runs (vid job)))]\<rparr>\<rparr>)"
    using assms by (subst monitor.simps) (simp add: update_last_run_def)
  ultimately show ?thesis by (simp add: get_job_progress_def)
qed

text \<open>A monitor that was stopped with the stall code.\<close>

definition tripped :: "FfmpegMon \<Rightarrow> bool" where
  "tripped m = (process m = None \<and> return_code m = Some 254)"

lemma tripped_stop: "tripped (snd (stop alive graceful exists 254 m))"
  by (simp add: tripped_def stop_def Let_def)

lemma tripped_poll:
  "tripped m \<Longrightarrow> fst (poll rd st m) \<noteq> NoEvent \<and> tripped (snd (poll rd st m)) \<and>
     (\<forall>c. fst (poll rd st m) = ExitCode c \<longrightarrow> c = 254)"
  by (auto simp: tripped_def poll_def polled_of_code_def split: list.splits)

lemma drain_backlog_tripped:
  "tripped (ffsubproc job) \<Longrightarrow> drain_backlog e k h job = Inr (r, k', h', job') \<Longrightarrow>
   tripped (ffsubproc job') \<and> (\<forall>c. r = Some c \<longrightarrow> c = 254)"
proof (induction e k h job arbitrary: r k' h' job' rule: drain_backlog.induct)
  case (1 e k h job)
  from "1.prems"(2) "1.prems"(1)
    tripped_poll [OF "1.prems"(1), of "read_result (seen e k)" "child_status (seen e k)"]
  show ?case
    apply (subst (asm) drain_backlog.simps)
    apply (auto split: if_splits prod.splits polled.splits sum.splits
        dest: "1.IH" [rotated -1])
    done
qed

lemma monitor_tripped:
  "tripped (ffsubproc job) \<Longrightarrow> monitor e k h job = Inr (g, effects, h', job') \<Longrightarrow>
   tripped (ffsubproc job') \<and> effects = [] \<and> (\<forall>c. g = Terminal c \<longrightarrow> c = 254)"
proof (induction e k h job arbitrary: g effects h' job' rule: monitor.induct)
  case (1 e k h job)
  from "1.prems"(2) "1.prems"(1)
    tripped_poll [OF "1.prems"(1), of "read_result (seen e k)" "child_status (seen e k)"]
  show ?case
    apply (subst (asm) monitor.simps)
    apply (auto split: if_splits prod.splits polled.splits sum.splits option.splits
        dest: "1.IH" [rotated -1])
    done
qed

lemma get_job_progress_tripped:
  assumes "tripped (ffsubproc job)" and "get_job_progress e h job = Inr (g, effects, h', job')"
  shows "tripped (ffsubproc job') \<and> effects = [] \<and> (\<forall>c. g = Terminal c \<longrightarrow> c = 254)"
proof (cases "drain_backlog e 0 h job")
  case (Inl err)
  with assms show ?thesis by (simp add: get_job_progress_def)
next
  case (Inr res)
  obtain r k h1 job1 where res: "res = (r, k, h1, job1)" by (cases res)
  from drain_backlog_tripped [OF assms(1) Inr [unfolded res]]
  have t: "tripped (ffsubproc job1)" and c: "\<forall>c. r = Some c \<longrightarrow> c = 254" by simp_all
  show ?thesis
  proof (cases r)
    case None
    with assms Inr res have "monitor e k h1 job1 = Inr (g, effects, h', job')"
      by (simp add: get_job_progress_def)
    with t show ?thesis by (rule monitor_tripped)
  next
    case (Some c')
    with assms Inr res t c show ?thesis by (auto simp: get_job_progress_def)
  qed
qed

text \<open>
  C7. When \<open>poll\<close> yields no event and the clock is more than the stall threshold past
  the last output, \<open>get_job_progress\<close> returns 254; the run's text ends in
  \<open>PROGRESS TIMEOUT\<close>; the monitor has been stopped with code 254, which sends the child
  the termination signal when it is alive, removes the registered temp file when it
  exists, and leaves the monitor without child, buffers or temp file; and the clock of
  the last output stands a million seconds ahead, so the stall test fails for every
  reading up to a million seconds plus the threshold from now. The stall cannot fire
  again: a monitor stopped with 254 never yields "no event" again, and every later call
  of \<open>get_job_progress\<close> leaves it so, does nothing to the outside, and if it returns a
  code, returns 254.
\<close>

theorem stall_trips_once:
  assumes "poll (read_result (seen e 0)) (child_status (seen e 0)) (ffsubproc job) = (NoEvent, m)"
    and "clock (seen e 0) - prev_ffmpeg_out_mono h > progress_secs_max e"
    and "runs (vid job) \<noteq> []"
  shows "get_job_progress e h job =
           Inr (Terminal 254,
                fst (stop (stop_alive e) (stop_graceful e) (path_exists e) 254 m),
                h\<lparr>prev_ffmpeg_out_mono := clock (seen e 0) + 1000000\<rparr>,
                job\<lparr>ffsubproc := snd (stop (stop_alive e) (stop_graceful e) (path_exists e) 254 m),
                    vid := (vid job)\<lparr>runs := butlast (runs (vid job)) @
                      [(last (runs (vid job)))
                         \<lparr>texts := texts (last (runs (vid job))) @ [''PROGRESS TIMEOUT'']\<rparr>]\<rparr>\<rparr>) \<and>
         snd (stop (stop_alive e) (stop_graceful e) (path_exists e) 254 m) =
           m\<lparr>temp_file := None, process := None, partial_line := [], progress_buffer := [],
             return_code := Some 254\<rparr> \<and>
         (temp_file m = Some f \<and> f \<noteq> [] \<and> path_exists e f \<longrightarrow>
            Unlink f \<in> set (fst (stop (stop_alive e) (stop_graceful e) (path_exists e) 254 m))) \<and>
         (process m \<noteq> None \<and> stop_alive e \<longrightarrow>
            Terminate \<in> set (fst (stop (stop_alive e) (stop_graceful e) (path_exists e) 254 m))) \<and>
         (t \<le> clock (seen e 0) + 1000000 + progress_secs_max e \<longrightarrow>
            \<not> t - (clock (seen e 0) + 1000000) > progress_secs_max e) \<and>
         tripped (snd (stop (stop_alive e) (stop_graceful e) (path_exists e) 254 m)) \<and>
         (tripped (ffsubproc job2) \<longrightarrow>
            fst (poll rd st (ffsubproc job2)) \<noteq> NoEvent \<and>
            (get_job_progress e2 h2 job2 = Inr (g, effects, h3, job3) \<longrightarrow>
               tripped (ffsubproc job3) \<and> effects = [] \<and> (\<forall>c. g = Terminal c \<longrightarrow> c = 254)))"
proof -
  let ?fx = "fst (stop (stop_alive e) (stop_graceful e) (path_exists e) 254 m)"
  let ?m' = "snd (stop (stop_alive e) (stop_graceful e) (path_exists e) 254 m)"
  have res: "get_job_progress e h job =
           Inr (Terminal 254, ?fx,
                h\<lparr>prev_ffmpeg_out_mono := clock (seen e 0) + 1000000\<rparr>,
                job\<lparr>ffsubproc := ?m',
                    vid := (vid job)\<lparr>runs := butlast (runs (vid job)) @
                      [(last (runs (vid job)))
                         \<lparr>texts := texts (last (runs (vid job))) @ [''PROGRESS TIMEOUT'']\<rparr>]\<rparr>\<rparr>)"
    using stall_result [OF assms] by (simp add: append_text_def)
  have stopped: "?m' = m\<lparr>temp_file := None, process := None, partial_line := [],
      progress_buffer := [], return_code := Some 254\<rparr>"
    by (simp add: stop_def Let_def)
  have unlink: "temp_file m = Some f \<and> f \<noteq> [] \<and> path_exists e f \<longrightarrow> Unlink f \<in> set ?fx"
    by (simp add: stop_def Let_def)
  have signal: "process m \<noteq> None \<and> stop_alive e \<longrightarrow> Terminate \<in> set ?fx"
    by (simp add: stop_def Let_def)
  have clk: "t \<le> clock (seen e 0) + 1000000 + progress_secs_max e \<longrightarrow>
            \<not> t - (clock (seen e 0) + 1000000) > progress_secs_max e"
    by simp
  have trip: "tripped ?m'" by (rule tripped_stop)
  have later: "tripped (ffsubproc job2) \<longrightarrow>
            fst (poll rd st (ffsubproc job2)) \<noteq> NoEvent \<and>
            (get_job_progress e2 h2 job2 = Inr (g, effects, h3, job3) \<longrightarrow>
               tripped (ffsubproc job3) \<and> effects = [] \<and> (\<forall>c. g = Terminal c \<longrightarrow> c = 254))"
    using tripped_poll [of "ffsubproc job2" rd st]
      get_job_progress_tripped [of job2 e2 h2 g effects h3 job3]
    by blast
  from res stopped unlink signal clk trip later show ?thesis by (intro conjI)
qed

text \<open>A child that is alive and silent, seen 40 seconds after the last output, and the
  job after the stall.\<close>

definition silent_env :: "real \<Rightarrow> env" where
  "silent_env t =
     \<lparr>progress_secs_max = 30, entry_clock = t,
      seen = (\<lambda>k. \<lparr>read_result = None, child_status = None, clock = t\<rparr>),
      stop_alive = True, stop_graceful = False, path_exists = (\<lambda>f. True)\<rparr>"

definition stalled_job :: Job where
  "stalled_job =
     example_job
       \<lparr>vid := \<lparr>runs = [\<lparr>texts = [''PROGRESS TIMEOUT''], run_return_code = None,
                         descr = ''initial run'',
                         command = [''ffmpeg'', ''-i'', ''a.avi'', ''TEMP.a.mkv'']\<rparr>]\<rparr>,
        ffsubproc := \<lparr>process = None, partial_line = [], output_queue = [],
                       return_code = Some 254, temp_file = None, progress_buffer = []\<rparr>\<rparr>"

lemma silent_poll:
  "poll (read_result (seen (silent_env 40) 0)) (child_status (seen (silent_env 40) 0))
     (ffsubproc example_job) = (NoEvent, ffsubproc example_job)"
  by (simp add: silent_env_def example_job_def poll_def after_read_def)

lemma silent_stall:
  "get_job_progress (silent_env 40) idle_handler example_job =
     Inr (Terminal 254, [Terminate, Kill, Unlink ''TEMP.a.mkv''],
          \<lparr>progress_line_mono = 0, prev_ffmpeg_out_mono = 1000040\<rparr>, stalled_job)"
  by code_simp

lemma stalled_again:
  "get_job_progress (silent_env 2000000) \<lparr>progress_line_mono = 0, prev_ffmpeg_out_mono = 1000040\<rparr>
     stalled_job =
     Inr (Terminal 254, [], \<lparr>progress_line_mono = 0, prev_ffmpeg_out_mono = 1000040\<rparr>,
          stalled_job\<lparr>vid := \<lparr>runs = [\<lparr>texts = [''PROGRESS TIMEOUT''],
                         run_return_code = Some 254, descr = ''initial run'',
                         command = [''ffmpeg'', ''-i'', ''a.avi'', ''TEMP.a.mkv'']\<rparr>]\<rparr>\<rparr>)"
  by code_simp

theorem stall_trips_once_witness:
  "poll (read_result (seen (silent_env 40) 0)) (child_status (seen (silent_env 40) 0))
     (ffsubproc example_job) = (NoEvent, ffsubproc example_job) \<and>
   clock (seen (silent_env 40) 0) - prev_ffmpeg_out_mono idle_handler
     > progress_secs_max (silent_env 40) \<and>
   runs (vid example_job) \<noteq> [] \<and>
   get_job_progress (silent_env 40) idle_handler example_job =
     Inr (Terminal 254, [Terminate, Kill, Unlink ''TEMP.a.mkv''],
          \<lparr>progress_line_mono = 0, prev_ffmpeg_out_mono = 1000040\<rparr>, stalled_job) \<and>
   tripped (ffsubproc stalled_job) \<and>
   fst (poll None None (ffsubproc stalled_job)) \<noteq> NoEvent \<and>
   get_job_progress (silent_env 2000000) \<lparr>progress_line_mono = 0, prev_ffmpeg_out_mono = 1000040\<rparr>
     stalled_job =
     Inr (Terminal 254, [], \<lparr>progress_line_mono = 0, prev_ffmpeg_out_mono = 1000040\<rparr>,
          stalled_job\<lparr>vid := \<lparr>runs = [\<lparr>texts = [''PROGRESS TIMEOUT''],
                         run_return_code = Some 254, descr = ''initial run'',
                         command = [''ffmpeg'', ''-i'', ''a.avi'', ''TEMP.a.mkv'']\<rparr>]\<rparr>\<rparr>)"
proof -
  have a: "clock (seen (silent_env 40) 0) - prev_ffmpeg_out_mono idle_handler
     > progress_secs_max (silent_env 40)"
    by (simp add: silent_env_def idle_handler_def)
  have b: "runs (vid example_job) \<noteq> []" by (simp add: example_job_def)
  have c: "tripped (ffsubproc stalled_job)" by (simp add: tripped_def stalled_job_def)
  from stall_trips_once [OF silent_poll a b, where ?job2.0 = stalled_job and rd = None
      and st = None and ?e2.0 = "silent_env 2000000"
      and ?h2.0 = "\<lparr>progress_line_mono = 0, prev_ffmpeg_out_mono = 1000040\<rparr>"]
  have "fst (poll None None (ffsubproc stalled_job)) \<noteq> NoEvent" using c by blast
  with silent_poll a b c silent_stall stalled_again show ?thesis by (intro conjI)
qed

section \<open>What the retry ladder does\<close>

subsection \<open>The tier flags are not touched by the progress interpreter\<close>

lemma drain_backlog_flags:
  "drain_backlog e k h job = Inr (r, k', h', job') \<Longrightarrow>
   is_retry job' = is_retry job \<and> is_software_fallback job' = is_software_fallback job"
proof (induction e k h job rule: drain_backlog.induct)
  case (1 e k h job)
  from "1.prems" show ?case
    apply (subst (asm) drain_backlog.simps)
    apply (auto split: if_splits prod.splits polled.splits sum.splits dest: "1.IH" [rotated -1])
    done
qed

lemma monitor_flags:
  "monitor e k h job = Inr (g, effects, h', job') \<Longrightarrow>
   is_retry job' = is_retry job \<and> is_software_fallback job' = is_software_fallback job"
proof (induction e k h job rule: monitor.induct)
  case (1 e k h job)
  from "1.prems" show ?case
    apply (subst (asm) monitor.simps)
    apply (auto split: if_splits prod.splits polled.splits sum.splits option.splits
        dest: "1.IH" [rotated -1])
    done
qed

lemma get_job_progress_flags:
  assumes "get_job_progress e h job = Inr (g, effects, h', job')"
  shows "is_retry job' = is_retry job \<and> is_software_fallback job' = is_software_fallback job"
proof (cases "drain_backlog e 0 h job")
  case (Inl err)
  with assms show ?thesis by (simp add: get_job_progress_def)
next
  case (Inr res)
  obtain r k h1 job1 where res: "res = (r, k, h1, job1)" by (cases res)
  with Inr have f: "is_retry job1 = is_retry job \<and>
      is_software_fallback job1 = is_software_fallback job"
    by (auto dest: drain_backlog_flags)
  show ?thesis
  proof (cases r)
    case None
    with assms Inr res have "monitor e k h1 job1 = Inr (g, effects, h', job')"
      by (simp add: get_job_progress_def)
    with f show ?thesis by (auto dest: monitor_flags)
  next
    case (Some c)
    with assms Inr res f show ?thesis by (simp add: get_job_progress_def)
  qed
qed

lemma start_transcode_job_flags:
  "start_transcode_job le r f h v = Inr (h', job) \<Longrightarrow>
   is_retry job = r \<and> is_software_fallback job = f"
  by (auto simp: start_transcode_job_def Let_def split: sum.splits prod.splits)

lemma check_job_status_cases:
  assumes "check_job_status e le h job = Inr (out, effects, h', v)"
  shows "(next_job out = None \<and> is_done out \<and> (\<exists>c. report_text out = Status (final_status c job))) \<or>
         (\<exists>job' g. out = \<lparr>next_job = Some job', report_text = Progress g, is_done = False\<rparr> \<and>
            is_retry job' = is_retry job \<and>
            is_software_fallback job' = is_software_fallback job) \<or>
         (\<exists>job'. out = \<lparr>next_job = Some job', report_text = Status ''RETRYING (Tolerant)...'',
                          is_done = False\<rparr> \<and>
            \<not> is_retry job \<and> \<not> is_software_fallback job \<and>
            is_retry job' \<and> \<not> is_software_fallback job') \<or>
         (\<exists>job'. out = \<lparr>next_job = Some job', report_text = Status ''RETRYING (Software)...'',
                          is_done = False\<rparr> \<and>
            is_retry job \<and> \<not> is_software_fallback job \<and>
            is_retry job' \<and> is_software_fallback job')"
proof (cases "get_job_progress e h job")
  case (Inl err)
  with assms show ?thesis by (simp add: check_job_status_def)
next
  case (Inr res)
  obtain g effs h1 job1 where res: "res = (g, effs, h1, job1)" by (cases res)
  with Inr have flags: "is_retry job1 = is_retry job"
      "is_software_fallback job1 = is_software_fallback job"
    by (auto dest: get_job_progress_flags)
  from assms Inr res flags show ?thesis
    by (auto simp: check_job_status_def final_status_def
        split: got.splits sum.splits if_splits bool.splits
        dest!: start_transcode_job_flags)
qed

lemma ladder_software:
  "is_software_fallback job \<Longrightarrow> ladder steps h job = []"
proof (induction steps arbitrary: h job)
  case Nil
  show ?case by simp
next
  case (Cons step steps)
  show ?case
  proof (cases "check_job_status (fst step) (snd step) h job")
    case (Inl err)
    then show ?thesis by simp
  next
    case (Inr res)
    obtain out effs h' v where res: "res = (out, effs, h', v)" by (cases res)
    from check_job_status_cases [OF Inr [unfolded res]] Cons.prems Cons.IH
    show ?thesis using Inr res by (auto simp: retry_started_def)
  qed
qed

lemma ladder_tolerant:
  "is_retry job \<Longrightarrow> \<not> is_software_fallback job \<Longrightarrow>
   ladder steps h job = [] \<or> ladder steps h job = [(''RETRYING (Software)...'', True, True)]"
proof (induction steps arbitrary: h job)
  case Nil
  show ?case by simp
next
  case (Cons step steps)
  show ?case
  proof (cases "check_job_status (fst step) (snd step) h job")
    case (Inl err)
    then show ?thesis by simp
  next
    case (Inr res)
    obtain out effs h' v where res: "res = (out, effs, h', v)" by (cases res)
    from check_job_status_cases [OF Inr [unfolded res]] Cons.prems
    show ?thesis using Inr res Cons.IH ladder_software by (elim disjE exE conjE) (auto simp: retry_started_def)
  qed
qed

lemma ladder_initial:
  "\<not> is_retry job \<Longrightarrow> \<not> is_software_fallback job \<Longrightarrow>
   ladder steps h job = [] \<or>
   ladder steps h job = [(''RETRYING (Tolerant)...'', True, False)] \<or>
   ladder steps h job = [(''RETRYING (Tolerant)...'', True, False),
                         (''RETRYING (Software)...'', True, True)]"
proof (induction steps arbitrary: h job)
  case Nil
  show ?case by simp
next
  case (Cons step steps)
  show ?case
  proof (cases "check_job_status (fst step) (snd step) h job")
    case (Inl err)
    then show ?thesis by simp
  next
    case (Inr res)
    obtain out effs h' v where res: "res = (out, effs, h', v)" by (cases res)
    from check_job_status_cases [OF Inr [unfolded res]] Cons.prems
    show ?thesis
    proof (elim disjE exE conjE, goal_cases)
      case 1
      with Inr res show ?case by simp
    next
      case (2 job' g)
      with Inr res Cons.IH [of job' h'] show ?case by (simp add: retry_started_def)
    next
      case (3 job')
      with Inr res ladder_tolerant [of job' steps h'] show ?case
        by (auto simp: retry_started_def)
    next
      case (4 job')
      with Cons.prems show ?case by simp
    qed
  qed
qed

lemma retry_started_cases:
  assumes "retry_started (check_job_status e le h job) = Some (s, r, f)"
  shows "(\<not> is_retry job \<and> \<not> is_software_fallback job \<and>
          s = ''RETRYING (Tolerant)...'' \<and> r \<and> \<not> f) \<or>
         (is_retry job \<and> \<not> is_software_fallback job \<and>
          s = ''RETRYING (Software)...'' \<and> r \<and> f)"
proof (cases "check_job_status e le h job")
  case (Inl err)
  with assms show ?thesis by (simp add: retry_started_def)
next
  case (Inr res)
  obtain out effs h' v where res: "res = (out, effs, h', v)" by (cases res)
  from check_job_status_cases [OF Inr [unfolded res]] assms Inr res
  show ?thesis by (elim disjE exE conjE) (auto simp: retry_started_def)
qed

lemma update_last_run_runs: "update_last_run f v = Inr v' \<Longrightarrow> runs v' \<noteq> []"
  by (auto simp: update_last_run_def split: if_splits)

lemma drain_backlog_terminal_runs:
  "drain_backlog e k h job = Inr (Some c, k', h', job') \<Longrightarrow> runs (vid job') \<noteq> []"
proof (induction e k h job rule: drain_backlog.induct)
  case (1 e k h job)
  from "1.prems" show ?case
    apply (subst (asm) drain_backlog.simps)
    apply (auto split: if_splits prod.splits polled.splits sum.splits
        dest: "1.IH" [rotated -1] update_last_run_runs)
    done
qed

lemma monitor_terminal_runs:
  "monitor e k h job = Inr (Terminal c, effects, h', job') \<Longrightarrow> runs (vid job') \<noteq> []"
proof (induction e k h job rule: monitor.induct)
  case (1 e k h job)
  from "1.prems" show ?case
    apply (subst (asm) monitor.simps)
    apply (auto split: if_splits prod.splits polled.splits sum.splits option.splits
        dest: "1.IH" [rotated -1] update_last_run_runs)
    done
qed

lemma get_job_progress_terminal_runs:
  assumes "get_job_progress e h job = Inr (Terminal c, effects, h', job')"
  shows "runs (vid job') \<noteq> []"
  using assms
  by (auto simp: get_job_progress_def split: sum.splits prod.splits option.splits
      dest: drain_backlog_terminal_runs monitor_terminal_runs)

lemma software_job_finalizes:
  assumes "is_software_fallback job"
    and "get_job_progress e h job = Inr (Terminal c, effects, h', job')"
  shows "\<exists>v. check_job_status e le h job =
           Inr (\<lparr>next_job = None, report_text = Status (if c = 0 then ''OK3'' else ''ERR''),
                 is_done = True\<rparr>, effects, h', v)"
proof -
  from assms(2) have "runs (vid job') \<noteq> []" by (rule get_job_progress_terminal_runs)
  moreover from assms have "is_software_fallback job'"
    by (auto dest: get_job_progress_flags)
  ultimately show ?thesis using assms(2)
    by (simp add: check_job_status_def update_last_run_def final_status_def)
qed

lemma example_ladder:
  "ladder example_steps idle_handler example_job
   = [(''RETRYING (Tolerant)...'', True, False), (''RETRYING (Software)...'', True, True)]"
  by code_simp

text \<open>
  C3. (1) From a job with both flags false, whatever the calls of \<open>check_job_status\<close>
  find, the retries started are none, or a tolerant one, or a tolerant and then a
  software one: no tier twice, two retries at most. (2) Every retry that a call starts
  is either the tolerant one, from a job with \<open>is_retry\<close> and \<open>is_software_fallback\<close> false
  to a job with \<open>is_retry\<close> true and \<open>is_software_fallback\<close> false, or the software one,
  from a job with \<open>is_retry\<close> true and \<open>is_software_fallback\<close> false to a job with both
  true. (3) On a software-fallback job every terminal code ends the video: no next job,
  status \<open>OK3\<close> or \<open>ERR\<close>, done.
\<close>

theorem retry_ladder_visits_each_tier_once:
  "(\<not> is_retry job \<and> \<not> is_software_fallback job \<longrightarrow>
      ladder steps h job = [] \<or>
      ladder steps h job = [(''RETRYING (Tolerant)...'', True, False)] \<or>
      ladder steps h job = [(''RETRYING (Tolerant)...'', True, False),
                            (''RETRYING (Software)...'', True, True)]) \<and>
   (retry_started (check_job_status e le h1 job1) = Some (s, r, f) \<longrightarrow>
      (\<not> is_retry job1 \<and> \<not> is_software_fallback job1 \<and>
       s = ''RETRYING (Tolerant)...'' \<and> r \<and> \<not> f) \<or>
      (is_retry job1 \<and> \<not> is_software_fallback job1 \<and>
       s = ''RETRYING (Software)...'' \<and> r \<and> f)) \<and>
   (is_software_fallback job2 \<and>
    get_job_progress e2 h2 job2 = Inr (Terminal c, effects, h3, job3) \<longrightarrow>
      (\<exists>v. check_job_status e2 le2 h2 job2 =
         Inr (\<lparr>next_job = None, report_text = Status (if c = 0 then ''OK3'' else ''ERR''),
               is_done = True\<rparr>, effects, h3, v)))"
proof -
  have tiers: "\<not> is_retry job \<and> \<not> is_software_fallback job \<longrightarrow>
      ladder steps h job = [] \<or>
      ladder steps h job = [(''RETRYING (Tolerant)...'', True, False)] \<or>
      ladder steps h job = [(''RETRYING (Tolerant)...'', True, False),
                            (''RETRYING (Software)...'', True, True)]"
    using ladder_initial [of job steps h] by blast
  have started: "retry_started (check_job_status e le h1 job1) = Some (s, r, f) \<longrightarrow>
      (\<not> is_retry job1 \<and> \<not> is_software_fallback job1 \<and>
       s = ''RETRYING (Tolerant)...'' \<and> r \<and> \<not> f) \<or>
      (is_retry job1 \<and> \<not> is_software_fallback job1 \<and>
       s = ''RETRYING (Software)...'' \<and> r \<and> f)"
    using retry_started_cases [of e le h1 job1 s r f] by blast
  have final: "is_software_fallback job2 \<and>
    get_job_progress e2 h2 job2 = Inr (Terminal c, effects, h3, job3) \<longrightarrow>
      (\<exists>v. check_job_status e2 le2 h2 job2 =
         Inr (\<lparr>next_job = None, report_text = Status (if c = 0 then ''OK3'' else ''ERR''),
               is_done = True\<rparr>, effects, h3, v))"
    using software_job_finalizes [of job2 e2 h2 c effects h3 job3 le2] by blast
  from tiers started final show ?thesis by (intro conjI)
qed

text \<open>A job whose run already holds a filter error and whose child has just exited.\<close>

definition failed_job :: "bool \<Rightarrow> bool \<Rightarrow> Job" where
  "failed_job r f =
     \<lparr>vid = \<lparr>runs = [\<lparr>texts = [''Error reinitializing filters''], run_return_code = None,
                       descr = [], command = []\<rparr>]\<rparr>,
      is_retry = r, is_software_fallback = f,
      ffsubproc = \<lparr>process = Some [''ffmpeg''], partial_line = [], output_queue = [],
                   return_code = None, temp_file = None, progress_buffer = []\<rparr>,
      start_mono = 0, duration_secs = 181, job_temp_file = ''TEMP.a.mkv''\<rparr>"

lemma failed_job_tolerant:
  "retry_started (check_job_status (example_env [] (Some 1) 2) example_launch idle_handler
      (failed_job False False)) = Some (''RETRYING (Tolerant)...'', True, False)"
  by code_simp

lemma failed_job_software:
  "retry_started (check_job_status (example_env [] (Some 1) 2) example_launch idle_handler
      (failed_job True False)) = Some (''RETRYING (Software)...'', True, True)"
  by code_simp

lemma failed_job_terminal:
  "get_job_progress (example_env [] (Some 1) 2) idle_handler (failed_job True True) =
   Inr (Terminal 1, [], idle_handler,
        (failed_job True True)
          \<lparr>vid := \<lparr>runs = [\<lparr>texts = [''Error reinitializing filters''],
                             run_return_code = Some 1, descr = [], command = []\<rparr>]\<rparr>,
           ffsubproc := \<lparr>process = None, partial_line = [], output_queue = [],
                          return_code = Some 1, temp_file = None, progress_buffer = []\<rparr>\<rparr>)"
  by code_simp

lemma example_job_flags: "\<not> is_retry example_job \<and> \<not> is_software_fallback example_job"
  by (simp add: example_job_def)

theorem retry_ladder_visits_each_tier_once_witness:
  "\<not> is_retry example_job \<and> \<not> is_software_fallback example_job \<and>
   ladder example_steps idle_handler example_job =
     [(''RETRYING (Tolerant)...'', True, False), (''RETRYING (Software)...'', True, True)] \<and>
   retry_started (check_job_status (example_env [] (Some 1) 2) example_launch idle_handler
      (failed_job False False)) = Some (''RETRYING (Tolerant)...'', True, False) \<and>
   \<not> is_retry (failed_job False False) \<and> \<not> is_software_fallback (failed_job False False) \<and>
   is_software_fallback (failed_job True True) \<and>
   (\<exists>v. check_job_status (example_env [] (Some 1) 2) example_launch idle_handler
          (failed_job True True) =
        Inr (\<lparr>next_job = None, report_text = Status ''ERR'', is_done = True\<rparr>, [],
             idle_handler, v))"
  using retry_ladder_visits_each_tier_once
    [where job = example_job and steps = example_steps and h = idle_handler
       and e = "example_env [] (Some 1) 2" and le = example_launch and ?h1.0 = idle_handler
       and ?job1.0 = "failed_job False False" and s = "''RETRYING (Tolerant)...''"
       and r = True and f = False
       and ?job2.0 = "failed_job True True" and ?e2.0 = "example_env [] (Some 1) 2"
       and ?h2.0 = idle_handler and c = 1 and effects = "[]" and ?h3.0 = idle_handler
       and ?job3.0 = "(failed_job True True)
          \<lparr>vid := \<lparr>runs = [\<lparr>texts = [''Error reinitializing filters''],
                             run_return_code = Some 1, descr = [], command = []\<rparr>]\<rparr>,
           ffsubproc := \<lparr>process = None, partial_line = [], output_queue = [],
                          return_code = Some 1, temp_file = None, progress_buffer = []\<rparr>\<rparr>"
       and ?le2.0 = example_launch]
    example_job_flags example_ladder
    failed_job_tolerant failed_job_terminal
  by (simp add: failed_job_def)

section \<open>The probe cache (ProbeCache.py)\<close>

text \<open>
  The metadata of a file as \<open>_get_metadata_with_ffprobe\<close> builds it, the same with the two
  computed fields, an entry of the cache as it is stored (the keys of its dict and their
  values), and the cache.
\<close>

record meta =
  anomaly :: "string option"
  width :: int
  height :: int
  codec :: string
  bitrate :: int
  duration :: real
  size_bytes :: nat
  color_spt :: string

record probe = meta +
  bloat :: int
  gb :: real

record cache_entry =
  keys :: "string list"
  stored :: meta

record ProbeCache =
  cache_data :: "(string \<times> cache_entry) list"
  dirty_count :: nat

text \<open>
  The outside: \<open>os.path.getsize\<close> (\<open>None\<close> where it raises), what
  \<open>_get_metadata_with_ffprobe\<close> comes to for a path (the metadata, \<open>None\<close> after one of the
  failures it catches, or an exception it does not catch), and whether the cache file
  can be written.
\<close>

datatype extraction = Extracted meta | ReturnedNone | Raised error

record probe_env =
  getsize :: "string \<Rightarrow> nat option"
  ffprobe :: "string \<Rightarrow> extraction"
  store_ok :: bool

definition disk_fields :: "string list" where
  "disk_fields =
     [''anomaly'', ''width'', ''height'', ''codec'', ''bitrate'', ''duration'', ''size_bytes'',
      ''color_spt'']"

text \<open>Python's \<open>round\<close> to an integer: to the nearest, a tie to the even one.\<close>

definition py_round :: "real \<Rightarrow> int" where
  "py_round x =
     (if x - of_int \<lfloor>x\<rfloor> < 1 / 2 then \<lfloor>x\<rfloor>
      else if x - of_int \<lfloor>x\<rfloor> > 1 / 2 then \<lfloor>x\<rfloor> + 1
      else if even \<lfloor>x\<rfloor> then \<lfloor>x\<rfloor> else \<lfloor>x\<rfloor> + 1)"

text \<open>
  \<open>_compute_fields\<close> reads \<open>meta.width\<close> first, which raises \<open>AttributeError\<close> when \<open>meta\<close>
  is \<open>None\<close>. \<open>round(x, 3)\<close> is taken as rounding a thousand times \<open>x\<close>.
\<close>

definition compute_fields :: "meta option \<Rightarrow> error + probe" where
  "compute_fields mo =
     (case mo of
        None \<Rightarrow> Inl AttributeError
      | Some m \<Rightarrow>
          Inr (meta.extend m
                 \<lparr>bloat = (if width m * height m > 0
                           then py_round (real_of_int (bitrate m) /
                                          sqrt (real_of_int (width m * height m)) * 1000)
                           else 0),
                  gb = real_of_int (py_round (real (size_bytes m) / (1024 * 1024 * 1024) * 1000))
                       / 1000\<rparr>))"

definition store :: "probe_env \<Rightarrow> ProbeCache \<Rightarrow> ProbeCache" where
  "store env pc = (if dirty_count pc > 0 \<and> store_ok env then pc\<lparr>dirty_count := 0\<rparr> else pc)"

definition set_cache :: "string \<Rightarrow> meta \<Rightarrow> ProbeCache \<Rightarrow> ProbeCache" where
  "set_cache filepath m pc =
     pc\<lparr>cache_data := AList.update filepath \<lparr>keys = disk_fields, stored = m\<rparr> (cache_data pc),
        dirty_count := dirty_count pc + 1\<rparr>"

definition invalidate :: "string \<Rightarrow> ProbeCache \<Rightarrow> ProbeCache" where
  "invalidate filepath pc =
     pc\<lparr>cache_data := AList.delete filepath (cache_data pc), dirty_count := dirty_count pc + 1\<rparr>"

definition get_valid_entry :: "probe_env \<Rightarrow> string \<Rightarrow> ProbeCache
    \<Rightarrow> (error + probe option) \<times> ProbeCache" where
  "get_valid_entry env filepath pc =
     (case getsize env filepath of
        None \<Rightarrow>
          (case map_of (cache_data pc) filepath of
             None \<Rightarrow> (Inr None, pc)
           | Some entry \<Rightarrow> (Inr None, invalidate filepath pc))
      | Some current_size \<Rightarrow>
          (case map_of (cache_data pc) filepath of
             None \<Rightarrow> (Inr None, pc)
           | Some entry \<Rightarrow>
               if set (keys entry) \<noteq> set disk_fields then (Inr None, invalidate filepath pc)
               else if size_bytes (stored entry) \<noteq> current_size
                    then (Inr None, invalidate filepath pc)
               else (case compute_fields (Some (stored entry)) of
                       Inl err \<Rightarrow> (Inl err, pc)
                     | Inr p \<Rightarrow> (Inr (Some p), pc))))"

definition get_metadata_with_ffprobe :: "probe_env \<Rightarrow> string \<Rightarrow> ProbeCache
    \<Rightarrow> (error + meta option) \<times> ProbeCache" where
  "get_metadata_with_ffprobe env file_path pc =
     (case ffprobe env file_path of
        Raised err \<Rightarrow> (Inl err, pc)
      | ReturnedNone \<Rightarrow> (Inr None, pc)
      | Extracted m \<Rightarrow> (Inr (Some m), if dirty_count pc \<ge> 100 then store env pc else pc))"

definition get :: "probe_env \<Rightarrow> string \<Rightarrow> ProbeCache \<Rightarrow> (error + probe option) \<times> ProbeCache" where
  "get env filepath pc =
     (case get_valid_entry env filepath pc of
        (Inl err, pc1) \<Rightarrow> (Inl err, pc1)
      | (Inr (Some p), pc1) \<Rightarrow> (Inr (Some p), pc1)
      | (Inr None, pc1) \<Rightarrow>
          (case get_metadata_with_ffprobe env filepath pc1 of
             (Inl err, pc2) \<Rightarrow> (Inl err, pc2)
           | (Inr mo, pc2) \<Rightarrow>
               (let pc3 = (case mo of None \<Rightarrow> pc2 | Some m \<Rightarrow> set_cache filepath m pc2)
                in (case compute_fields mo of
                      Inl err \<Rightarrow> (Inl err, pc3)
                    | Inr p \<Rightarrow> (Inr (Some p), pc3)))))"

text \<open>After a miss in the cache and a failed extraction, \<open>get\<close> raises.\<close>

lemma get_after_failed_probe:
  assumes "fst (get_valid_entry env filepath pc) = Inr None"
    and "ffprobe env filepath = ReturnedNone"
  shows "fst (get env filepath pc) = Inl AttributeError"
  using assms
  by (auto simp: get_def get_metadata_with_ffprobe_def compute_fields_def
      split: prod.splits sum.splits option.splits)

text \<open>A temp file that the encoder never wrote: no size, no metadata.\<close>

definition no_output_env :: probe_env where
  "no_output_env =
     \<lparr>getsize = (\<lambda>f. None), ffprobe = (\<lambda>f. ReturnedNone), store_ok = True\<rparr>"

text \<open>
  C9. With no valid entry in the cache and a failed extraction, \<open>get\<close> is specified to
  return a failure value. For a temp file that was never written, with an empty cache,
  \<open>get\<close> raises \<open>AttributeError\<close> instead: \<open>_compute_fields\<close> is called on \<open>None\<close>.
\<close>

theorem get_missing_file_raises:
  "get no_output_env ''TEMP.a.mkv'' \<lparr>cache_data = [], dirty_count = 0\<rparr> =
     (Inl AttributeError, \<lparr>cache_data = [], dirty_count = 0\<rparr>)"
  by (simp add: get_def get_valid_entry_def get_metadata_with_ffprobe_def compute_fields_def
      no_output_env_def)

end
